theory Spec2Isabelle
  imports
    Main
    "HOL-Library.AList"
    "HOL-Library.Sublist"
    "HOL-Library.Char_ord"
    "HOL-Library.List_Lexorder"
begin

section \<open>Data model\<close>

text \<open>
  A post is the dictionary that \<^verbatim>\<open>scrape_ddm_news\<close> builds for one listing item
  (keys \<^verbatim>\<open>title\<close>, \<^verbatim>\<open>detail_url\<close>, \<^verbatim>\<open>date\<close>, \<^verbatim>\<open>tags\<close>, \<^verbatim>\<open>description\<close>) and later
  extends, in place, with the keys \<^verbatim>\<open>content\<close> and \<^verbatim>\<open>error\<close>.  A key that may be
  missing from the dictionary is an \<open>option\<close> field: \<open>None\<close> is "key not in dict".
\<close>

record post =
  title :: string
  detail_url :: string
  date :: string
  tags :: "string list"
  description :: string
  content :: "string option"
  error :: "string option"

section \<open>The file system and the process state\<close>

text \<open>
  The three places of \<^verbatim>\<open>main.py\<close> that hold files: \<^verbatim>\<open>POSTS_FILE\<close>
  (\<^verbatim>\<open>data/current/posts.json\<close>), \<^verbatim>\<open>POSTS_NEW_FILE\<close> (\<^verbatim>\<open>data/current/posts_new.json\<close>)
  and the files of \<^verbatim>\<open>ARCHIVE_DIR\<close>, each under its name.
\<close>

datatype path = POSTS_FILE | POSTS_NEW_FILE | ARCHIVE_DIR string

text \<open>
  What a file holds: \<open>Json ps\<close> is the complete output of
  \<^verbatim>\<open>json.dump(ps, f, ensure_ascii=False, indent=2)\<close>; \<open>Partial ps n\<close> is what is left
  of a file opened with mode \<^verbatim>\<open>'w'\<close> when the dump of \<open>ps\<close> raised after \<open>n\<close> bytes.
  Two files with equal contents here are byte-identical.
\<close>

datatype file_content = Json "post list" | Partial "post list" nat

type_synonym fs = "(path \<times> file_content) list"

definition exists_file :: "fs \<Rightarrow> path \<Rightarrow> bool" where
  "exists_file fs p = (map_of fs p \<noteq> None)"

definition archive_names :: "fs \<Rightarrow> string list" where
  "archive_names fs =
     List.map_filter (\<lambda>(p, c). case p of ARCHIVE_DIR n \<Rightarrow> Some n | _ \<Rightarrow> None) fs"

text \<open>
  The state that outlives a call: the global \<^verbatim>\<open>latest_posts\<close> and the files.
\<close>

record state =
  latest_posts :: "post list"
  files :: fs

section \<open>The read API: \<^verbatim>\<open>get_posts\<close>\<close>

text \<open>
  Python's \<^verbatim>\<open>xs[start:stop]\<close> for integer bounds: a negative bound counts from the
  end, every bound is clipped to \<open>0 .. len(xs)\<close>, and an empty range gives \<open>[]\<close>.
\<close>

definition py_slice :: "'a list \<Rightarrow> int \<Rightarrow> int \<Rightarrow> 'a list" where
  "py_slice xs start stop =
     (let n = int (length xs);
          lo = (if start < 0 then max (start + n) 0 else min start n);
          hi = (if stop < 0 then max (stop + n) 0 else min stop n)
      in if lo < hi then take (nat (hi - lo)) (drop (nat lo) xs) else [])"

text \<open>\<^verbatim>\<open>s.split(c)\<close>: the pieces of \<open>s\<close> between the occurrences of \<open>c\<close>.\<close>

fun split_on :: "char \<Rightarrow> string \<Rightarrow> string list" where
  "split_on c [] = [[]]"
| "split_on c (x # xs) =
     (if x = c then [] # split_on c xs
      else (case split_on c xs of
              [] \<Rightarrow> [[x]]
            | p # ps \<Rightarrow> (x # p) # ps))"

text \<open>
  \<^verbatim>\<open>ARCHIVE_DIR.glob("posts_*.json")\<close> over the names of the files in the archive
  directory, and \<^verbatim>\<open>Path.stem\<close> of a name that ends in \<^verbatim>\<open>.json\<close>.
\<close>

definition glob_posts :: "string list \<Rightarrow> string list" where
  "glob_posts names =
     filter (\<lambda>n. prefix ''posts_'' n \<and> suffix ''.json'' n \<and> 11 \<le> length n) names"

definition stem :: "string \<Rightarrow> string" where
  "stem name = take (length name - 5) name"

text \<open>
  Lines 393--402 of \<^verbatim>\<open>main.py\<close>: the newest archive file by name, the text between
  its first and second underscore, parsed as \<^verbatim>\<open>%Y%m%d\<close>.  The parameter \<open>strptime\<close>
  stands for \<^verbatim>\<open>datetime.strptime(ts, "%Y%m%d").isoformat()\<close>, \<open>None\<close> when it raises;
  every exception of the block is caught and leaves \<^verbatim>\<open>last_updated\<close> at \<^verbatim>\<open>None\<close>.
\<close>

definition last_update_time :: "(string \<Rightarrow> string option) \<Rightarrow> string list \<Rightarrow> string option" where
  "last_update_time strptime names =
     (case rev (sort (glob_posts names)) of
        [] \<Rightarrow> None
      | f # _ \<Rightarrow>
          (case split_on (CHR ''_'') (stem f) of
             _ # timestamp # _ \<Rightarrow> strptime timestamp
           | _ \<Rightarrow> None))"

record response =
  posts :: "post list"
  total :: int
  offset :: "int option"
  limit :: "int option"
  has_more :: bool
  last_updated :: "string option"

text \<open>
  \<^verbatim>\<open>get_posts(offset, limit)\<close> reads the global \<^verbatim>\<open>latest_posts\<close> and the archive
  directory, so it takes the state.  The parameters are \<^verbatim>\<open>Optional[int]\<close>, so they
  are \<open>int option\<close>, and the response echoes them as received.
\<close>

definition get_posts ::
  "(string \<Rightarrow> string option) \<Rightarrow> state \<Rightarrow> int option \<Rightarrow> int option \<Rightarrow> response"
where
  "get_posts strptime s off lim =
     (if latest_posts s = [] then
        \<lparr>posts = [], total = 0, offset = off, limit = lim,
         has_more = False, last_updated = None\<rparr>
      else
        (let total' = int (length (latest_posts s));
             safe_offset = (case off of Some n \<Rightarrow> n | None \<Rightarrow> 0);
             safe_limit = (case lim of Some n \<Rightarrow> n | None \<Rightarrow> 10);
             end' = min (safe_offset + safe_limit) total';
             posts' = py_slice (latest_posts s) safe_offset end';
             has_more' = (end' < total')
         in \<lparr>posts = posts', total = total', offset = off, limit = lim,
             has_more = has_more',
             last_updated = last_update_time strptime (archive_names (files s))\<rparr>))"

text \<open>The request validation of the route: \<^verbatim>\<open>Query(0, ge=0)\<close> and \<^verbatim>\<open>Query(10, ge=1, le=100)\<close>.\<close>

definition valid_request :: "int \<Rightarrow> int \<Rightarrow> bool" where
  "valid_request off lim = (0 \<le> off \<and> 1 \<le> lim \<and> lim \<le> 100)"

section \<open>The HTTP client and what it fetches\<close>

text \<open>
  An exception with the text that \<^verbatim>\<open>str(e)\<close> gives.  The handlers of \<^verbatim>\<open>main.py\<close> tell
  three kinds apart: \<^verbatim>\<open>httpx.TimeoutException\<close>, any other \<^verbatim>\<open>httpx.RequestError\<close>, and
  any other \<^verbatim>\<open>Exception\<close>.  Cancellation and interrupts, which are not \<^verbatim>\<open>Exception\<close>s,
  are outside the model.
\<close>

datatype exn = TimeoutException string | RequestError string | Exception string

fun str :: "exn \<Rightarrow> string" where
  "str (TimeoutException m) = m"
| "str (RequestError m) = m"
| "str (Exception m) = m"

text \<open>
  A parsed page, as far as the selectors of \<^verbatim>\<open>main.py\<close> look at it.  An \<open>item\<close> is an
  element of class \<^verbatim>\<open>.item\<close>: its first \<^verbatim>\<open>.cont .title a\<close> (stripped text and
  \<^verbatim>\<open>href\<close> attribute), its first \<^verbatim>\<open>.date\<close>, its \<^verbatim>\<open>.tag\<close> elements and its first
  \<^verbatim>\<open>.desc\<close>, all as stripped text.  \<open>next_link\<close> is what lines 267--283 find in the
  \<^verbatim>\<open>onclick\<close> attribute of the pagination control: a page number inside
  \<^verbatim>\<open>pagingHelper.getList('Q', n)\<close>, the helper's name without a number that the regular
  expression matches, or no helper at all.  \<open>district\<close> is the first \<^verbatim>\<open>.district\<close>
  element, as the stripped texts of its \<^verbatim>\<open>p\<close> elements.
\<close>

record title_link =
  link_text :: string
  href :: "string option"

record item =
  title_elem :: "title_link option"
  date_elem :: "string option"
  tag_elems :: "string list"
  desc_elem :: "string option"

datatype next_link = Get_list nat | No_match | No_paging_helper

record html =
  all_items :: "item list"
  next_page :: "next_link option"
  district :: "string list option"

record resp =
  status_code :: nat
  body :: html

text \<open>
  \<^verbatim>\<open>await client.get(url, headers=headers, timeout=20)\<close>: the response, or the
  exception raised.  The answer is taken as a function of the URL.
\<close>

type_synonym client = "string \<Rightarrow> exn + resp"

text \<open>The decimal digits of a number, as an f-string prints it.\<close>

fun str_nat :: "nat \<Rightarrow> string" where
  "str_nat n =
     (if n < 10 then [''0123456789'' ! n]
      else str_nat (n div 10) @ [''0123456789'' ! (n mod 10)])"

declare str_nat.simps [simp del]

section \<open>The detail resolver: \<^verbatim>\<open>fetch_post_detail\<close>\<close>

text \<open>The dictionary that \<^verbatim>\<open>fetch_post_detail\<close> returns: \<^verbatim>\<open>url\<close>, and \<^verbatim>\<open>content\<close>
  and \<^verbatim>\<open>error\<close> when they were set.\<close>

record detail =
  url :: string
  d_content :: "string option"
  d_error :: "string option"

text \<open>\<^verbatim>\<open>'\n\n'.join(ts)\<close>.\<close>

fun join_paragraphs :: "string list \<Rightarrow> string" where
  "join_paragraphs [] = []"
| "join_paragraphs [t] = t"
| "join_paragraphs (t # ts) = t @ [CHR 0x0A, CHR 0x0A] @ join_paragraphs ts"

text \<open>
  The body of the \<^verbatim>\<open>try\<close> block (lines 120--154): \<open>Inl\<close> is an exception that
  leaves the block, \<open>Inr\<close> the dictionary \<^verbatim>\<open>post\<close> at the end of the block or at
  the \<^verbatim>\<open>return\<close> of line 128.
\<close>

definition fetch_post_detail_try :: "client \<Rightarrow> string \<Rightarrow> exn + detail" where
  "fetch_post_detail_try client u =
     (case client u of
        Inl e \<Rightarrow> Inl e
      | Inr r \<Rightarrow>
          if status_code r \<noteq> 200 then
            Inr \<lparr>url = u, d_content = None,
                 d_error = Some (''HTTP '' @ str_nat (status_code r))\<rparr>
          else
            (case district (body r) of
               Some paragraphs \<Rightarrow>
                 (let content' = join_paragraphs (filter (\<lambda>t. t \<noteq> []) paragraphs)
                  in if content' = [] then Inr \<lparr>url = u, d_content = Some [], d_error = None\<rparr>
                     else Inr \<lparr>url = u, d_content = Some content', d_error = None\<rparr>)
             | None \<Rightarrow> Inr \<lparr>url = u, d_content = Some [], d_error = None\<rparr>))"

text \<open>
  The whole function: the three handlers (lines 156--167) turn the exception into
  the \<^verbatim>\<open>error\<close> key of \<^verbatim>\<open>post = {"url": url}\<close>.  The result is again a sum, so
  that "nothing is raised" is the statement that it is an \<open>Inr\<close>.
\<close>

definition fetch_post_detail :: "client \<Rightarrow> string \<Rightarrow> exn + detail" where
  "fetch_post_detail client u =
     (case fetch_post_detail_try client u of
        Inr post \<Rightarrow> Inr post
      | Inl (TimeoutException m) \<Rightarrow>
          Inr \<lparr>url = u, d_content = None,
               d_error = Some (''Timeout while fetching '' @ u)\<rparr>
      | Inl (RequestError m) \<Rightarrow>
          Inr \<lparr>url = u, d_content = None,
               d_error = Some (''Request error for '' @ u @ '': '' @ m)\<rparr>
      | Inl (Exception m) \<Rightarrow>
          Inr \<lparr>url = u, d_content = None,
               d_error = Some (''Unexpected error fetching '' @ u @ '': '' @ m)\<rparr>)"

section \<open>Detail resolution in batches\<close>

text \<open>
  Lines 309--317: one element of \<^verbatim>\<open>zip(batch, detail_results)\<close>.  With
  \<^verbatim>\<open>return_exceptions=True\<close> a result is the exception object (\<open>Inl\<close>) or the
  dictionary (\<open>Inr\<close>); the post is updated in place.
\<close>

definition update_post :: "post \<Rightarrow> exn + detail \<Rightarrow> post" where
  "update_post p r =
     (case r of
        Inl e \<Rightarrow> p\<lparr>error := Some (str e)\<rparr>
      | Inr d \<Rightarrow>
          (let p1 = (case d_content d of Some c \<Rightarrow> p\<lparr>content := Some c\<rparr> | None \<Rightarrow> p)
           in (case d_error d of Some e \<Rightarrow> p1\<lparr>error := Some e\<rparr> | None \<Rightarrow> p1)))"

text \<open>
  The loop \<^verbatim>\<open>for i in range(0, len(all_posts), batch_size)\<close> from index \<open>i\<close> on.
  The posts of \<^verbatim>\<open>batch = all_posts[i:i + batch_size]\<close> are the objects of
  \<^verbatim>\<open>all_posts\<close>, so updating them writes positions \<open>i ..< i + batch_size\<close> of the list.
  The test for a batch size of zero is there for the recursion to end;
  \<open>fetch_details\<close> below never enters the loop with it.
\<close>

function batch_loop :: "nat \<Rightarrow> client \<Rightarrow> nat \<Rightarrow> post list \<Rightarrow> post list" where
  "batch_loop batch_size client i all_posts =
     (if batch_size = 0 \<or> length all_posts \<le> i then all_posts
      else
        (let batch = take batch_size (drop i all_posts);
             detail_results = map (\<lambda>p. fetch_post_detail client (detail_url p)) batch;
             updated = map (\<lambda>(p, d). update_post p d) (zip batch detail_results)
         in batch_loop batch_size client (i + batch_size)
              (take i all_posts @ updated @ drop (i + batch_size) all_posts)))"
  by pat_completeness auto
termination
  by (relation "measure (\<lambda>(batch_size, client, i, all_posts). length all_posts - i)") auto

declare batch_loop.simps [simp del]

text \<open>\<^verbatim>\<open>range(0, n, 0)\<close> raises \<^verbatim>\<open>ValueError\<close>; \<^verbatim>\<open>main.py\<close> fixes \<^verbatim>\<open>batch_size = 5\<close>.\<close>

definition fetch_details :: "nat \<Rightarrow> client \<Rightarrow> post list \<Rightarrow> exn + post list" where
  "fetch_details batch_size client all_posts =
     (if batch_size = 0 then Inl (Exception ''range() arg 3 must not be zero'')
      else Inr (batch_loop batch_size client 0 all_posts))"

section \<open>The publisher: \<^verbatim>\<open>save_posts\<close>, \<^verbatim>\<open>archive_current_posts\<close>, \<^verbatim>\<open>update_posts\<close>\<close>

text \<open>
  How writing a file can go: the write completes; \<^verbatim>\<open>open(file_path, 'w')\<close> raises
  and the file system is as before; or the file was opened, which empties or
  creates it, and \<^verbatim>\<open>json.dump\<close> raised after \<open>n\<close> bytes.
\<close>

datatype write_fault = No_fault | Open_fails | Dump_fails nat

text \<open>
  How \<^verbatim>\<open>shutil.move(src, dst)\<close> of a file can go.  It tries \<^verbatim>\<open>os.rename\<close>, and on any
  \<^verbatim>\<open>OSError\<close> of the rename it falls back on \<^verbatim>\<open>copy2(src, dst)\<close> followed by
  \<^verbatim>\<open>os.unlink(src)\<close>.  So the move either goes through (by the rename, or by a
  complete copy and unlink), or it raises in one of three states: nothing has
  changed (the rename failed and the copy could not open a file); the copy broke
  off, so the destination holds the first \<open>n\<close> bytes of the source and the source is
  still there; or the copy is complete and the source is still there (the
  \<^verbatim>\<open>copystat\<close> or the \<^verbatim>\<open>unlink\<close> raised).
\<close>

datatype move_fault = Move_ok | Raise_unchanged | Raise_partial nat | Raise_copied

text \<open>The first \<open>n\<close> bytes of a file.\<close>

fun truncate_content :: "nat \<Rightarrow> file_content \<Rightarrow> file_content" where
  "truncate_content n (Json ps) = Partial ps n"
| "truncate_content n (Partial ps m) = Partial ps (min n m)"

text \<open>
  A reading of \<^verbatim>\<open>datetime.now()\<close>, as far as the two formats of
  \<^verbatim>\<open>archive_current_posts\<close> look at it, and \<^verbatim>\<open>strftime\<close> for these formats: \<^verbatim>\<open>%m\<close>,
  \<^verbatim>\<open>%d\<close>, \<^verbatim>\<open>%H\<close> and \<^verbatim>\<open>%M\<close> are two digits, \<^verbatim>\<open>%Y\<close> is the year in decimal, which
  is four digits for the years from 1000 on.
\<close>

record clock =
  year :: nat
  month :: nat
  day :: nat
  hh :: nat
  mm :: nat

definition digit :: "nat \<Rightarrow> char" where
  "digit k = ''0123456789'' ! k"

definition two_digits :: "nat \<Rightarrow> string" where
  "two_digits n = (if n < 10 then ''0'' @ str_nat n else str_nat n)"

definition strftime_Ymd :: "clock \<Rightarrow> string" where
  "strftime_Ymd t = str_nat (year t) @ two_digits (month t) @ two_digits (day t)"

definition strftime_Ymd_HM :: "clock \<Rightarrow> string" where
  "strftime_Ymd_HM t = strftime_Ymd t @ ''_'' @ two_digits (hh t) @ two_digits (mm t)"

definition valid_clock :: "clock \<Rightarrow> bool" where
  "valid_clock t =
     (1000 \<le> year t \<and> year t \<le> 9999 \<and> 1 \<le> month t \<and> month t \<le> 12 \<and>
      1 \<le> day t \<and> day t \<le> 31 \<and> hh t < 24 \<and> mm t < 60)"

text \<open>
  What the file operations of one call of \<^verbatim>\<open>update_posts\<close> meet: the fault of the
  write, how each of the two calls of \<^verbatim>\<open>shutil.move\<close> goes, whether the \<^verbatim>\<open>unlink\<close>
  of the handler raises, and the two readings of the clock in
  \<^verbatim>\<open>archive_current_posts\<close> (line 70 and line 75).
\<close>

record publish_env =
  save_fault :: write_fault
  now_day :: clock
  now_minute :: clock
  archive_move :: move_fault
  commit_move :: move_fault
  unlink_fails :: bool

definition save_posts :: "write_fault \<Rightarrow> post list \<Rightarrow> path \<Rightarrow> fs \<Rightarrow> bool \<times> fs" where
  "save_posts fault ps file_path fs =
     (case fault of
        No_fault \<Rightarrow> (True, AList.update file_path (Json ps) fs)
      | Open_fails \<Rightarrow> (False, fs)
      | Dump_fails n \<Rightarrow> (False, AList.update file_path (Partial ps n) fs))"

text \<open>
  \<^verbatim>\<open>shutil.move(src, dst)\<close>: the exception raised, if any, and the file system it
  leaves.  A move that goes through replaces a file that is at \<open>dst\<close>.  Without a
  file at \<open>src\<close> both the rename and the copy raise before anything is written.
\<close>

definition shutil_move :: "move_fault \<Rightarrow> path \<Rightarrow> path \<Rightarrow> fs \<Rightarrow> exn option \<times> fs" where
  "shutil_move fault src dst fs =
     (case map_of fs src of
        None \<Rightarrow> (Some (Exception ''FileNotFoundError''), fs)
      | Some c \<Rightarrow>
          (case fault of
             Move_ok \<Rightarrow> (None, AList.update dst c (AList.delete src fs))
           | Raise_unchanged \<Rightarrow> (Some (Exception ''OSError''), fs)
           | Raise_partial n \<Rightarrow>
               (Some (Exception ''OSError''), AList.update dst (truncate_content n c) fs)
           | Raise_copied \<Rightarrow> (Some (Exception ''OSError''), AList.update dst c fs)))"

definition archive_file_name :: "publish_env \<Rightarrow> fs \<Rightarrow> string" where
  "archive_file_name env fs =
     (let archive_file = ''posts_'' @ strftime_Ymd (now_day env) @ ''.json''
      in if exists_file fs (ARCHIVE_DIR archive_file)
         then ''posts_'' @ strftime_Ymd_HM (now_minute env) @ ''.json''
         else archive_file)"

definition archive_current_posts :: "publish_env \<Rightarrow> fs \<Rightarrow> bool \<times> fs" where
  "archive_current_posts env fs =
     (if \<not> exists_file fs POSTS_FILE then (True, fs)
      else
        (case shutil_move (archive_move env) POSTS_FILE
                (ARCHIVE_DIR (archive_file_name env fs)) fs of
           (None, fs') \<Rightarrow> (True, fs')
         | (Some e, fs') \<Rightarrow> (False, fs')))"

text \<open>Lines 100--105: the handler of \<^verbatim>\<open>update_posts\<close>; a failing \<^verbatim>\<open>unlink\<close> is passed over.\<close>

definition cleanup_new_file :: "publish_env \<Rightarrow> fs \<Rightarrow> fs" where
  "cleanup_new_file env fs =
     (if exists_file fs POSTS_NEW_FILE then
        (if unlink_fails env then fs else AList.delete POSTS_NEW_FILE fs)
      else fs)"

definition update_posts :: "publish_env \<Rightarrow> post list \<Rightarrow> fs \<Rightarrow> bool \<times> fs" where
  "update_posts env new_posts fs =
     (case save_posts (save_fault env) new_posts POSTS_NEW_FILE fs of
        (False, fs1) \<Rightarrow> (False, fs1)
      | (True, fs1) \<Rightarrow>
          (case archive_current_posts env fs1 of
             (False, fs2) \<Rightarrow> (False, fs2)
           | (True, fs2) \<Rightarrow>
               (case shutil_move (commit_move env) POSTS_NEW_FILE POSTS_FILE fs2 of
                  (None, fs3) \<Rightarrow> (True, fs3)
                | (Some e, fs3) \<Rightarrow> (False, cleanup_new_file env fs3))))"

section \<open>The crawl: \<^verbatim>\<open>scrape_ddm_news\<close>\<close>

definition ENTRY_URL :: string where
  "ENTRY_URL = ''https://www.ddm.org.tw/xmnews?xsmsid=0K297379120077217595''"

text \<open>
  Lines 217--253 for one item: the post, or \<open>None\<close> where the loop goes on to the
  next item (no title link, or a missing or empty \<^verbatim>\<open>href\<close>).
\<close>

definition post_of_item :: "item \<Rightarrow> post option" where
  "post_of_item it =
     (case title_elem it of
        None \<Rightarrow> None
      | Some a \<Rightarrow>
          (case href a of
             None \<Rightarrow> None
           | Some h \<Rightarrow>
               if h = [] then None
               else Some \<lparr>title = link_text a,
                          detail_url = ''https://www.ddm.org.tw'' @ h,
                          date = (case date_elem it of Some d \<Rightarrow> d | None \<Rightarrow> []),
                          tags = filter (\<lambda>t. t \<noteq> []) (tag_elems it),
                          description = (case desc_elem it of Some d \<Rightarrow> d | None \<Rightarrow> []),
                          content = None, error = None\<rparr>))"

text \<open>Lines 204--258: the posts of one page, after the three leading form items.\<close>

definition page_posts :: "html \<Rightarrow> post list" where
  "page_posts tree =
     (let items = filter (\<lambda>it. title_elem it \<noteq> None) (drop 3 (all_items tree))
      in List.map_filter post_of_item items)"

text \<open>Lines 262--283: the URL of the next page, or \<open>None\<close>.\<close>

definition next_url :: "html \<Rightarrow> string option" where
  "next_url tree =
     (case next_page tree of
        Some (Get_list next_page_num) \<Rightarrow>
          Some (''https://www.ddm.org.tw/xmnews?xsmsid=0K297379120077217595&page=''
                @ str_nat next_page_num)
      | Some No_match \<Rightarrow> None
      | Some No_paging_helper \<Rightarrow> None
      | None \<Rightarrow> None)"

text \<open>
  How the pagination loop is left: by the \<^verbatim>\<open>return\<close> of line 200, or at its end
  (\<^verbatim>\<open>current_url\<close> is \<^verbatim>\<open>None\<close>, or a \<^verbatim>\<open>break\<close>), each with \<^verbatim>\<open>all_posts\<close> as it
  is then.
\<close>

datatype loop_exit = Returned "post list" | Loop_end "post list"

fun collected :: "loop_exit \<Rightarrow> post list" where
  "collected (Returned ps) = ps"
| "collected (Loop_end ps) = ps"

text \<open>
  The loop \<^verbatim>\<open>while current_url:\<close> (lines 190--294).  The source puts no bound on the
  number of pages, so the loop takes fuel, one unit for each test of its condition,
  and \<open>None\<close> is a loop that has not ended when the fuel is used up.  An exception
  is raised by \<^verbatim>\<open>client.get\<close>; the three handlers all \<^verbatim>\<open>break\<close>.
\<close>

fun crawl_loop :: "nat \<Rightarrow> client \<Rightarrow> string option \<Rightarrow> post list \<Rightarrow> loop_exit option" where
  "crawl_loop 0 client current_url all_posts = None"
| "crawl_loop (Suc fuel) client None all_posts = Some (Loop_end all_posts)"
| "crawl_loop (Suc fuel) client (Some u) all_posts =
     (case client u of
        Inl (TimeoutException m) \<Rightarrow> Some (Loop_end all_posts)
      | Inl (RequestError m) \<Rightarrow> Some (Loop_end all_posts)
      | Inl (Exception m) \<Rightarrow> Some (Loop_end all_posts)
      | Inr r \<Rightarrow>
          if status_code r \<noteq> 200 then Some (Returned all_posts)
          else crawl_loop fuel client (next_url (body r)) (all_posts @ page_posts (body r)))"

text \<open>
  \<^verbatim>\<open>scrape_ddm_news\<close>: the pagination loop, then (lines 296--333) the detail
  resolution with \<^verbatim>\<open>batch_size = 5\<close> and the publication.  An exception that
  reaches the outer handler (line 330) leaves \<^verbatim>\<open>latest_posts\<close> at \<^verbatim>\<open>current_posts\<close>.
\<close>

definition scrape_ddm_news :: "nat \<Rightarrow> client \<Rightarrow> publish_env \<Rightarrow> state \<Rightarrow> state option" where
  "scrape_ddm_news fuel client env s =
     (let current_posts = latest_posts s
      in case crawl_loop fuel client (Some ENTRY_URL) [] of
           None \<Rightarrow> None
         | Some (Returned all_posts) \<Rightarrow> Some (s\<lparr>latest_posts := current_posts\<rparr>)
         | Some (Loop_end all_posts) \<Rightarrow>
             if all_posts \<noteq> [] then
               (case fetch_details 5 client all_posts of
                  Inl e \<Rightarrow> Some (s\<lparr>latest_posts := current_posts\<rparr>)
                | Inr all_posts' \<Rightarrow>
                    (case update_posts env all_posts' (files s) of
                       (True, fs') \<Rightarrow> Some \<lparr>latest_posts = all_posts', files = fs'\<rparr>
                     | (False, fs') \<Rightarrow> Some \<lparr>latest_posts = current_posts, files = fs'\<rparr>))
             else Some (s\<lparr>latest_posts := current_posts\<rparr>))"

section \<open>The daily trigger: \<^verbatim>\<open>periodic_scrape\<close>\<close>

text \<open>
  An aware \<^verbatim>\<open>datetime\<close> as \<^verbatim>\<open>pytz\<close> makes it: the day as its ordinal
  (\<^verbatim>\<open>date.toordinal()\<close>), the time of day, and the UTC offset of its \<^verbatim>\<open>tzinfo\<close> in
  seconds.  A \<^verbatim>\<open>pytz\<close> \<^verbatim>\<open>tzinfo\<close> has one fixed offset; \<^verbatim>\<open>replace\<close> and the addition of
  a \<^verbatim>\<open>timedelta\<close> keep the \<^verbatim>\<open>tzinfo\<close> they find and do not look at the zone again.
\<close>

record datetime =
  ordinal :: int
  hour :: nat
  minute :: nat
  second :: nat
  microsecond :: nat
  utcoffset :: int

text \<open>\<^verbatim>\<open>date.max.toordinal()\<close>, the day 9999-12-31.\<close>

definition MAXORDINAL :: int where
  "MAXORDINAL = 3652059"

text \<open>
  \<^verbatim>\<open>a >= b\<close> for two values with the same \<^verbatim>\<open>tzinfo\<close>, which Python compares by
  their wall-clock fields in order.  The two values that line 345 compares are
  \<^verbatim>\<open>now\<close> and its \<^verbatim>\<open>replace\<close>.
\<close>

definition dt_ge :: "datetime \<Rightarrow> datetime \<Rightarrow> bool" where
  "dt_ge a b =
     (ordinal b < ordinal a \<or> (ordinal a = ordinal b \<and>
       (hour b < hour a \<or> (hour a = hour b \<and>
         (minute b < minute a \<or> (minute a = minute b \<and>
           (second b < second a \<or> (second a = second b \<and>
             microsecond b \<le> microsecond a))))))))"

text \<open>
  \<^verbatim>\<open>now.replace(hour=target_hour, minute=target_minute, second=0, microsecond=0)\<close>,
  which raises \<^verbatim>\<open>ValueError\<close> for an hour outside \<open>0..23\<close> or a minute outside \<open>0..59\<close>.
\<close>

definition replace_time :: "datetime \<Rightarrow> int \<Rightarrow> int \<Rightarrow> exn + datetime" where
  "replace_time now target_hour target_minute =
     (if target_hour < 0 \<or> 23 < target_hour then Inl (Exception ''hour must be in 0..23'')
      else if target_minute < 0 \<or> 59 < target_minute then Inl (Exception ''minute must be in 0..59'')
      else Inr (now\<lparr>hour := nat target_hour, minute := nat target_minute,
                     second := 0, microsecond := 0\<rparr>))"

text \<open>
  Lines 343--346 of \<^verbatim>\<open>periodic_scrape\<close>: the next run, seen from \<open>now\<close>.  Adding a day
  to the last day that a \<^verbatim>\<open>datetime\<close> can hold raises \<^verbatim>\<open>OverflowError\<close>.
\<close>

definition next_run :: "datetime \<Rightarrow> int \<Rightarrow> int \<Rightarrow> exn + datetime" where
  "next_run now target_hour target_minute =
     (case replace_time now target_hour target_minute of
        Inl e \<Rightarrow> Inl e
      | Inr t \<Rightarrow>
          if dt_ge now t then
            (if MAXORDINAL < ordinal t + 1 then Inl (Exception ''date value out of range'')
             else Inr (t\<lparr>ordinal := ordinal t + 1\<rparr>))
          else Inr t)"

text \<open>
  Line 347: \<^verbatim>\<open>(next_run - now)\<close>, in microseconds (\<^verbatim>\<open>total_seconds()\<close> is this
  number divided by \<open>10^6\<close>, as a float).  The two values have the same \<^verbatim>\<open>tzinfo\<close>,
  so Python subtracts their wall-clock fields.
\<close>

definition microseconds_of_day :: "datetime \<Rightarrow> int" where
  "microseconds_of_day t =
     ((int (hour t) * 60 + int (minute t)) * 60 + int (second t)) * 1000000
       + int (microsecond t)"

definition wait_microseconds :: "datetime \<Rightarrow> datetime \<Rightarrow> int" where
  "wait_microseconds t now =
     (ordinal t - ordinal now) * 86400000000
       + (microseconds_of_day t - microseconds_of_day now)"

text \<open>A \<^verbatim>\<open>datetime\<close> that Python can build: the day and the time of day are in range.\<close>

definition valid_datetime :: "datetime \<Rightarrow> bool" where
  "valid_datetime t =
     (1 \<le> ordinal t \<and> ordinal t \<le> MAXORDINAL \<and>
      hour t < 24 \<and> minute t < 60 \<and> second t < 60 \<and> microsecond t < 1000000)"

text \<open>
  The instant that an aware \<^verbatim>\<open>datetime\<close> names, in microseconds of UTC counted from
  the midnight that begins the day of ordinal 0: its wall-clock reading less its
  UTC offset.
\<close>

definition utc_microseconds :: "datetime \<Rightarrow> int" where
  "utc_microseconds t =
     ordinal t * 86400000000 + microseconds_of_day t - utcoffset t * 1000000"

text \<open>
  A time zone, as the UTC offset in seconds that is in force at each instant, and
  \<^verbatim>\<open>datetime.now(tz)\<close> at the instant \<open>u\<close>: \<^verbatim>\<open>pytz\<close> gives the wall-clock reading of the
  zone at \<open>u\<close> and the \<^verbatim>\<open>tzinfo\<close> with the offset in force at \<open>u\<close>.
\<close>

type_synonym zone = "int \<Rightarrow> int"

definition now_in :: "zone \<Rightarrow> int \<Rightarrow> datetime" where
  "now_in tz u =
     (let local = u + tz u * 1000000;
          r = local mod 86400000000
      in \<lparr>ordinal = local div 86400000000,
          hour = nat (r div 3600000000),
          minute = nat (r mod 3600000000 div 60000000),
          second = nat (r mod 60000000 div 1000000),
          microsecond = nat (r mod 1000000),
          utcoffset = tz u\<rparr>)"

section \<open>One entry resolved on its own\<close>

text \<open>
  What lines 305--317 do to a single post when nothing else is in the batch: fetch
  its detail page and record the result in it.
\<close>

definition resolve :: "client \<Rightarrow> post \<Rightarrow> post" where
  "resolve client p = update_post p (fetch_post_detail client (detail_url p))"

section \<open>Concrete inputs\<close>

text \<open>Two detail pages: one without a \<^verbatim>\<open>.district\<close> element, one answered with status 404.\<close>

definition empty_page :: html where
  "empty_page = \<lparr>all_items = [], next_page = None, district = None\<rparr>"

definition no_district_client :: client where
  "no_district_client u = Inr \<lparr>status_code = 200, body = empty_page\<rparr>"

definition not_found_client :: client where
  "not_found_client u = Inr \<lparr>status_code = 404, body = empty_page\<rparr>"

text \<open>
  A site whose first listing page has the three form items and one news item and
  points to page 2; the detail page of the news item has one paragraph; every other
  request, the one for page 2 among them, times out.
\<close>

definition form_item :: item where
  "form_item = \<lparr>title_elem = None, date_elem = None, tag_elems = [], desc_elem = None\<rparr>"

definition news_item :: item where
  "news_item =
     \<lparr>title_elem = Some \<lparr>link_text = ''News'', href = Some ''/n1''\<rparr>,
      date_elem = Some ''2025-01-01'', tag_elems = [''tag''], desc_elem = None\<rparr>"

definition first_page :: html where
  "first_page =
     \<lparr>all_items = [form_item, form_item, form_item, news_item],
      next_page = Some (Get_list 2), district = None\<rparr>"

definition news_page :: html where
  "news_page = \<lparr>all_items = [], next_page = None, district = Some [''Body'']\<rparr>"

definition page_2_times_out :: client where
  "page_2_times_out u =
     (if u = ENTRY_URL then Inr \<lparr>status_code = 200, body = first_page\<rparr>
      else if u = ''https://www.ddm.org.tw/n1'' then Inr \<lparr>status_code = 200, body = news_page\<rparr>
      else Inl (TimeoutException ''timed out''))"

definition news_post :: post where
  "news_post =
     \<lparr>title = ''News'', detail_url = ''https://www.ddm.org.tw/n1'', date = ''2025-01-01'',
      tags = [''tag''], description = [], content = None, error = None\<rparr>"

definition lost_post :: post where
  "lost_post =
     \<lparr>title = ''Lost'', detail_url = ''https://www.ddm.org.tw/n9'', date = [],
      tags = [], description = [], content = None, error = None\<rparr>"

definition old_post :: post where
  "old_post =
     \<lparr>title = ''Old'', detail_url = ''https://www.ddm.org.tw/n0'', date = ''2024-12-31'',
      tags = [], description = [], content = Some ''Old body'', error = None\<rparr>"

text \<open>A publication on 1 January 2025 at 03:00 in which no file operation fails.\<close>

definition new_year_3am :: clock where
  "new_year_3am = \<lparr>year = 2025, month = 1, day = 1, hh = 3, mm = 0\<rparr>"

definition no_faults :: publish_env where
  "no_faults =
     \<lparr>save_fault = No_fault, now_day = new_year_3am, now_minute = new_year_3am,
      archive_move = Move_ok, commit_move = Move_ok, unlink_fails = False\<rparr>"

definition published_old :: state where
  "published_old = \<lparr>latest_posts = [old_post], files = [(POSTS_FILE, Json [old_post])]\<rparr>"

text \<open>
  The same publication with one fault each: the dump breaks off after ten bytes;
  the move into the archive raises with nothing changed, or with ten bytes copied;
  the move of the staged file raises with nothing changed, or with ten bytes copied.
\<close>

definition dump_breaks :: publish_env where
  "dump_breaks = no_faults\<lparr>save_fault := Dump_fails 10\<rparr>"

definition archive_fails :: publish_env where
  "archive_fails = no_faults\<lparr>archive_move := Raise_unchanged\<rparr>"

definition archive_breaks :: publish_env where
  "archive_breaks = no_faults\<lparr>archive_move := Raise_partial 10\<rparr>"

definition commit_fails :: publish_env where
  "commit_fails = no_faults\<lparr>commit_move := Raise_unchanged\<rparr>"

definition commit_breaks :: publish_env where
  "commit_breaks = no_faults\<lparr>commit_move := Raise_partial 10\<rparr>"

text \<open>An archive directory that already has both names of 1 January 2025, 03:00.\<close>

definition crowded_archive :: fs where
  "crowded_archive =
     [(POSTS_FILE, Json [news_post]),
      (ARCHIVE_DIR ''posts_20250101.json'', Json []),
      (ARCHIVE_DIR ''posts_20250101_0300.json'', Json [old_post])]"

text \<open>
  The zone \<^verbatim>\<open>America/Los_Angeles\<close> around 9 March 2025 (ordinal 739319): UTC-8 until
  10:00 UTC of that day, UTC-7 from then on.  The instant \<open>eve_of_switch\<close> is 11:05
  UTC on 8 March 2025, which is 03:05 in the zone.
\<close>

definition pacific :: zone where
  "pacific u = (if u < 739319 * 86400000000 + 36000000000 then - 28800 else - 25200)"

definition eve_of_switch :: int where
  "eve_of_switch = 739318 * 86400000000 + 39900000000"

text \<open>Five past three in the morning of the last day that a \<^verbatim>\<open>datetime\<close> can hold.\<close>

definition last_day :: datetime where
  "last_day =
     \<lparr>ordinal = 3652059, hour = 3, minute = 5, second = 0, microsecond = 0,
      utcoffset = - 28800\<rparr>"

section \<open>Properties of the read API\<close>

lemma py_slice_nonneg:
  assumes "0 \<le> start" "0 \<le> stop"
  shows "py_slice xs start stop = take (nat stop - nat start) (drop (nat start) xs)"
proof -
  let ?n = "int (length xs)"
  show ?thesis
  proof (cases "min start ?n < min stop ?n")
    case True
    then have s: "start < ?n" "start < stop" by auto
    then have ms: "min start ?n = start" by simp
    have "take (nat (min stop ?n - start)) (drop (nat start) xs)
          = take (nat stop - nat start) (drop (nat start) xs)"
    proof (cases "stop \<le> ?n")
      case True
      with s assms show ?thesis by (simp add: min_def nat_diff_distrib)
    next
      case False
      with s assms have "length (drop (nat start) xs) \<le> nat stop - nat start"
        by (simp add: nat_le_iff; linarith)
      moreover from False s assms have "length (drop (nat start) xs) \<le> nat (min stop ?n - start)"
        by (simp add: min_def; linarith)
      ultimately show ?thesis by simp
    qed
    with True assms show ?thesis
      by (simp add: py_slice_def Let_def ms)
  next
    case False
    then have "length xs \<le> nat start \<or> nat stop \<le> nat start"
      using assms by (auto simp: min_def split: if_splits)
    then have "take (nat stop - nat start) (drop (nat start) xs) = []"
      by auto
    with False assms show ?thesis
      by (auto simp add: py_slice_def Let_def)
  qed
qed

text \<open>
  Claim C6.  For every dataset and every valid request (\<open>offset \<ge> 0\<close>,
  \<open>1 \<le> limit \<le> 100\<close>) the response of \<^verbatim>\<open>get_posts\<close> satisfies: the number of
  returned posts is \<open>min(limit, max(0, total - offset))\<close>, where \<open>total\<close> is the
  length of the dataset (and is what the response reports); the returned posts are
  the slice of the dataset that starts at \<open>offset\<close>, clipped to the length of the
  dataset; and \<open>has_more\<close> is true exactly when \<open>offset + len(posts) < total\<close>.
\<close>

theorem get_posts_page:
  assumes "valid_request off lim"
  shows "let r = get_posts strptime s (Some off) (Some lim);
             n = int (length (latest_posts s))
         in total r = n
          \<and> int (length (posts r)) = min lim (max 0 (n - off))
          \<and> posts r = take (nat lim) (drop (nat off) (latest_posts s))
          \<and> has_more r = (off + int (length (posts r)) < n)"
proof (cases "latest_posts s = []")
  case True
  with assms show ?thesis
    by (simp add: get_posts_def valid_request_def)
next
  case False
  let ?n = "int (length (latest_posts s))"
  let ?e = "min (off + lim) ?n"
  from assms have v: "0 \<le> off" "1 \<le> lim" by (simp_all add: valid_request_def)
  then have e0: "0 \<le> ?e" by simp
  have sl: "py_slice (latest_posts s) off ?e = take (nat ?e - nat off) (drop (nat off) (latest_posts s))"
    by (rule py_slice_nonneg [OF v(1) e0])
  have eq: "take (nat ?e - nat off) (drop (nat off) (latest_posts s))
            = take (nat lim) (drop (nat off) (latest_posts s))"
  proof (cases "off + lim \<le> ?n")
    case True
    with v have "nat ?e - nat off = nat lim" by (simp add: min_def; linarith)
    then show ?thesis by simp
  next
    case False
    with v have "length (drop (nat off) (latest_posts s)) \<le> nat ?e - nat off"
      by (simp add: min_def; linarith)
    moreover from False v have "length (drop (nat off) (latest_posts s)) \<le> nat lim"
      by (simp; linarith)
    ultimately show ?thesis by simp
  qed
  have len: "int (length (take (nat lim) (drop (nat off) (latest_posts s)))) = min lim (max 0 (?n - off))"
    using v by (simp add: min_def max_def; linarith)
  have more: "(?e < ?n) = (off + min lim (max 0 (?n - off)) < ?n)"
    using v by (simp add: min_def max_def; linarith)
  show ?thesis
    using False sl eq len more
    by (simp add: get_posts_def Let_def)
qed

theorem get_posts_page_witness:
  "valid_request 1 2 \<and>
   (let r = get_posts (\<lambda>_. None) \<lparr>latest_posts = [old_post, news_post, lost_post, old_post], files = []\<rparr> (Some 1) (Some 2)
    in total r = 4 \<and> posts r = [news_post, lost_post] \<and> has_more r = True)"
proof -
  have v: "valid_request 1 2" by (simp add: valid_request_def)
  show ?thesis
    using v get_posts_page [OF v, of "\<lambda>_. None" "\<lparr>latest_posts = [old_post, news_post, lost_post, old_post], files = []\<rparr>"]
    by (simp add: Let_def)
qed

text \<open>
  Claim C9.  When the current dataset is empty, \<^verbatim>\<open>get_posts\<close> returns exactly
  \<open>posts = []\<close>, \<open>total = 0\<close>, the offset and the limit of the request echoed back,
  \<open>has_more = False\<close> and \<open>last_updated = None\<close>, for every request (valid or
  not) and whatever the archive directory holds.
\<close>

theorem get_posts_empty_dataset:
  "get_posts strptime \<lparr>latest_posts = [], files = fs\<rparr> off lim =
     \<lparr>posts = [], total = 0, offset = off, limit = lim,
      has_more = False, last_updated = None\<rparr>"
  by (simp add: get_posts_def)

section \<open>Properties of the detail resolver\<close>

lemma fetch_post_detail_cases:
  "fetch_post_detail client u = Inr
     (case client u of
        Inl (TimeoutException m) \<Rightarrow>
          \<lparr>url = u, d_content = None, d_error = Some (''Timeout while fetching '' @ u)\<rparr>
      | Inl (RequestError m) \<Rightarrow>
          \<lparr>url = u, d_content = None, d_error = Some (''Request error for '' @ u @ '': '' @ m)\<rparr>
      | Inl (Exception m) \<Rightarrow>
          \<lparr>url = u, d_content = None, d_error = Some (''Unexpected error fetching '' @ u @ '': '' @ m)\<rparr>
      | Inr r \<Rightarrow>
          if status_code r \<noteq> 200
          then \<lparr>url = u, d_content = None, d_error = Some (''HTTP '' @ str_nat (status_code r))\<rparr>
          else \<lparr>url = u,
                d_content = Some (case district (body r) of
                                    None \<Rightarrow> []
                                  | Some ps \<Rightarrow> join_paragraphs (filter (\<lambda>t. t \<noteq> []) ps)),
                d_error = None\<rparr>)"
  by (simp add: fetch_post_detail_def fetch_post_detail_try_def Let_def
           split: sum.splits exn.splits option.splits)

lemma filter_nonempty_nil:
  "list_all (\<lambda>t. t = []) ps \<Longrightarrow> filter (\<lambda>t. t \<noteq> []) ps = []"
  by (induction ps) auto

text \<open>
  Claim C5, as the code has it.  For every detail URL \<^verbatim>\<open>fetch_post_detail\<close> raises
  nothing and returns a dictionary for that URL.  A timeout, a request error, any
  other exception and every status other than 200 are recorded in \<^verbatim>\<open>error\<close>, and in
  each of these cases the key \<^verbatim>\<open>content\<close> is not set at all.  With status 200 no
  \<^verbatim>\<open>error\<close> is set: \<^verbatim>\<open>content\<close> is the empty string when the \<^verbatim>\<open>.district\<close> region is
  missing, and otherwise the non-empty paragraph texts joined by blank lines, which
  is the empty string when the region yields no text.
\<close>

theorem fetch_post_detail_captures:
  "\<exists>d. fetch_post_detail client u = Inr d \<and> url d = u \<and>
     (case client u of
        Inl (TimeoutException m) \<Rightarrow>
          d_error d = Some (''Timeout while fetching '' @ u) \<and> d_content d = None
      | Inl (RequestError m) \<Rightarrow>
          d_error d = Some (''Request error for '' @ u @ '': '' @ m) \<and> d_content d = None
      | Inl (Exception m) \<Rightarrow>
          d_error d = Some (''Unexpected error fetching '' @ u @ '': '' @ m) \<and> d_content d = None
      | Inr r \<Rightarrow>
          if status_code r \<noteq> 200 then
            d_error d = Some (''HTTP '' @ str_nat (status_code r)) \<and> d_content d = None
          else
            d_error d = None \<and>
            (case district (body r) of
               None \<Rightarrow> d_content d = Some []
             | Some ps \<Rightarrow>
                 d_content d = Some (join_paragraphs (filter (\<lambda>t. t \<noteq> []) ps)) \<and>
                 (list_all (\<lambda>t. t = []) ps \<longrightarrow> d_content d = Some [])))"
  unfolding fetch_post_detail_cases
  by (auto split: sum.splits exn.splits option.splits simp: filter_nonempty_nil)

theorem fetch_post_detail_captures_witness:
  "\<exists>d. fetch_post_detail page_2_times_out ''https://www.ddm.org.tw/n9'' = Inr d \<and>
        d_error d = Some ''Timeout while fetching https://www.ddm.org.tw/n9'' \<and>
        d_content d = None"
  using fetch_post_detail_captures [of page_2_times_out "''https://www.ddm.org.tw/n9''"]
  by (auto simp add: page_2_times_out_def ENTRY_URL_def)

text \<open>
  The claim as stated fails twice.  A page without the content region gives the
  empty \<^verbatim>\<open>content\<close> and no \<^verbatim>\<open>error\<close>; and a response with status 404 gives an
  \<^verbatim>\<open>error\<close> and no \<^verbatim>\<open>content\<close> key, not the empty string.
\<close>

theorem fetch_post_detail_counterexample:
  "fetch_post_detail no_district_client ''u''
     = Inr \<lparr>url = ''u'', d_content = Some [], d_error = None\<rparr>
   \<and> fetch_post_detail not_found_client ''u''
     = Inr \<lparr>url = ''u'', d_content = None, d_error = Some ''HTTP 404''\<rparr>"
  by (simp add: fetch_post_detail_cases no_district_client_def not_found_client_def
        empty_page_def str_nat.simps)

section \<open>Properties of the batched detail resolution\<close>

lemma update_post_fields:
  "title (update_post p r) = title p"
  "detail_url (update_post p r) = detail_url p"
  "date (update_post p r) = date p"
  "tags (update_post p r) = tags p"
  "description (update_post p r) = description p"
  by (simp_all add: update_post_def Let_def split: sum.splits option.splits)

lemma resolve_augments:
  "content (resolve client p) \<noteq> None \<or> error (resolve client p) \<noteq> None"
  by (simp add: resolve_def fetch_post_detail_cases update_post_def Let_def
           split: sum.splits exn.splits option.splits)

lemma zip_map_update:
  "map (\<lambda>(p, d). update_post p d)
       (zip batch (map (\<lambda>p. fetch_post_detail client (detail_url p)) batch))
   = map (resolve client) batch"
  by (induction batch) (simp_all add: resolve_def)

text \<open>
  The loop from index \<open>i\<close> leaves the posts before \<open>i\<close> as they are and resolves
  every post from \<open>i\<close> on, each on its own.
\<close>

lemma batch_loop_eq:
  "0 < batch_size \<Longrightarrow>
   batch_loop batch_size client i all_posts
   = take i all_posts @ map (resolve client) (drop i all_posts)"
proof (induction batch_size client i all_posts rule: batch_loop.induct)
  case (1 batch_size client i all_posts)
  show ?case
  proof (cases "length all_posts \<le> i")
    case True
    then show ?thesis by (simp add: batch_loop.simps [of batch_size client i all_posts])
  next
    case False
    then have i: "i < length all_posts" by simp
    let ?batch = "take batch_size (drop i all_posts)"
    let ?ys = "take i all_posts @ map (resolve client) ?batch @ drop (i + batch_size) all_posts"
    have step: "batch_loop batch_size client i all_posts
                = batch_loop batch_size client (i + batch_size) ?ys"
      using False "1.prems"
      by (simp add: batch_loop.simps [of batch_size client i all_posts] Let_def zip_map_update)
    have IH: "batch_loop batch_size client (i + batch_size) ?ys
              = take (i + batch_size) ?ys @ map (resolve client) (drop (i + batch_size) ?ys)"
      using "1.IH" [OF _ refl refl refl "1.prems"] False "1.prems"
      by (simp add: zip_map_update)
    have tk: "take (i + batch_size) ?ys = take i all_posts @ map (resolve client) ?batch"
      using i by (auto simp: min_def)
    have dr: "drop (i + batch_size) ?ys = drop (i + batch_size) all_posts"
      using i by (auto simp: min_def)
    have split: "drop i all_posts = ?batch @ drop (i + batch_size) all_posts"
      by (simp add: add.commute [of i batch_size] flip: drop_drop)
    have mp: "map (resolve client) (drop i all_posts)
              = map (resolve client) ?batch @ map (resolve client) (drop (i + batch_size) all_posts)"
      using arg_cong [OF split, of "map (resolve client)"] by simp
    show ?thesis
      unfolding step IH tk dr mp by simp
  qed
qed

lemma fetch_details_eq:
  "0 < batch_size \<Longrightarrow> fetch_details batch_size client all_posts = Inr (map (resolve client) all_posts)"
  by (simp add: fetch_details_def batch_loop_eq)

text \<open>
  Claim C2.  For every sequence of listing entries, every client and every batch
  size of at least 1, the batched detail resolution raises nothing and gives a
  sequence of the same length whose \<open>i\<close>-th post is the \<open>i\<close>-th entry with the result
  of its own detail fetch recorded in it: title, detail URL, date, tags and
  description are those of the entry, and \<^verbatim>\<open>content\<close> or \<^verbatim>\<open>error\<close> is set.  The
  \<open>i\<close>-th result depends on nothing but the \<open>i\<close>-th entry and the answer to its own
  request, so a resolution that fails changes no other post of its batch.
\<close>

theorem fetch_details_pointwise:
  assumes "1 \<le> batch_size"
  shows "\<exists>rs. fetch_details batch_size client entries = Inr rs \<and>
           length rs = length entries \<and>
           (\<forall>i<length entries.
              rs ! i = update_post (entries ! i)
                         (fetch_post_detail client (detail_url (entries ! i))) \<and>
              title (rs ! i) = title (entries ! i) \<and>
              detail_url (rs ! i) = detail_url (entries ! i) \<and>
              date (rs ! i) = date (entries ! i) \<and>
              tags (rs ! i) = tags (entries ! i) \<and>
              description (rs ! i) = description (entries ! i) \<and>
              (content (rs ! i) \<noteq> None \<or> error (rs ! i) \<noteq> None))"
proof -
  from assms have eq: "fetch_details batch_size client entries = Inr (map (resolve client) entries)"
    by (simp add: fetch_details_eq)
  have "resolve client p = update_post p (fetch_post_detail client (detail_url p))" for p
    by (simp add: resolve_def)
  moreover have "title (resolve client p) = title p" "detail_url (resolve client p) = detail_url p"
    "date (resolve client p) = date p" "tags (resolve client p) = tags p"
    "description (resolve client p) = description p" for p
    by (simp_all add: resolve_def update_post_fields)
  ultimately show ?thesis
    unfolding eq using resolve_augments [of client] by simp
qed

theorem fetch_details_pointwise_witness:
  "(1::nat) \<le> 2 \<and>
   (\<exists>rs. fetch_details 2 page_2_times_out [news_post, lost_post, news_post] = Inr rs \<and>
          length rs = 3 \<and>
          rs ! 0 = news_post\<lparr>content := Some ''Body''\<rparr> \<and>
          rs ! 1 = lost_post\<lparr>error := Some ''Timeout while fetching https://www.ddm.org.tw/n9''\<rparr> \<and>
          rs ! 2 = news_post\<lparr>content := Some ''Body''\<rparr>)"
proof -
  have h: "(1::nat) \<le> 2" by simp
  from fetch_details_pointwise [OF h, of page_2_times_out "[news_post, lost_post, news_post]"]
  obtain rs where rs: "fetch_details 2 page_2_times_out [news_post, lost_post, news_post] = Inr rs"
      "length rs = 3"
    and each: "\<And>i. i < 3 \<Longrightarrow>
       rs ! i = update_post ([news_post, lost_post, news_post] ! i)
                  (fetch_post_detail page_2_times_out
                     (detail_url ([news_post, lost_post, news_post] ! i)))"
    by auto
  have n: "update_post news_post (fetch_post_detail page_2_times_out (detail_url news_post))
           = news_post\<lparr>content := Some ''Body''\<rparr>"
    by (simp add: fetch_post_detail_cases update_post_def news_post_def page_2_times_out_def
          ENTRY_URL_def news_page_def)
  have l: "update_post lost_post (fetch_post_detail page_2_times_out (detail_url lost_post))
           = lost_post\<lparr>error := Some ''Timeout while fetching https://www.ddm.org.tw/n9''\<rparr>"
    by (simp add: fetch_post_detail_cases update_post_def lost_post_def page_2_times_out_def
          ENTRY_URL_def)
  from each [of 0] each [of 1] each [of 2] n l
  have "rs ! 0 = news_post\<lparr>content := Some ''Body''\<rparr>"
    "rs ! 1 = lost_post\<lparr>error := Some ''Timeout while fetching https://www.ddm.org.tw/n9''\<rparr>"
    "rs ! 2 = news_post\<lparr>content := Some ''Body''\<rparr>"
    by simp_all
  with rs h show ?thesis by blast
qed

section \<open>Properties of the publisher\<close>

lemma map_of_save_posts:
  "save_posts fault ps f fs = (ok, fs1) \<Longrightarrow> p \<noteq> f \<Longrightarrow> map_of fs1 p = map_of fs p"
  by (auto simp: save_posts_def update_conv' split: write_fault.splits)

lemma save_posts_staged:
  "save_posts fault ps f fs = (True, fs1) \<Longrightarrow> map_of fs1 f = Some (Json ps)"
  by (auto simp: save_posts_def update_conv' split: write_fault.splits)

lemma archive_file_name_cases:
  "archive_file_name env fs =
     (if exists_file fs (ARCHIVE_DIR (''posts_'' @ strftime_Ymd (now_day env) @ ''.json''))
      then ''posts_'' @ strftime_Ymd_HM (now_minute env) @ ''.json''
      else ''posts_'' @ strftime_Ymd (now_day env) @ ''.json'')"
  by (simp add: archive_file_name_def Let_def)

text \<open>The four ways the archiving step can go when there is a current file.\<close>

lemma archive_current_posts_cases:
  "archive_current_posts env fs =
     (case map_of fs POSTS_FILE of
        None \<Rightarrow> (True, fs)
      | Some c \<Rightarrow>
          (case archive_move env of
             Move_ok \<Rightarrow>
               (True, AList.update (ARCHIVE_DIR (archive_file_name env fs)) c
                        (AList.delete POSTS_FILE fs))
           | Raise_unchanged \<Rightarrow> (False, fs)
           | Raise_partial n \<Rightarrow>
               (False, AList.update (ARCHIVE_DIR (archive_file_name env fs))
                         (truncate_content n c) fs)
           | Raise_copied \<Rightarrow>
               (False, AList.update (ARCHIVE_DIR (archive_file_name env fs)) c fs)))"
  by (simp add: archive_current_posts_def shutil_move_def exists_file_def
        split: option.splits move_fault.splits)

lemma archive_current_posts_failed:
  assumes "archive_current_posts env fs = (False, fs')"
  shows "map_of fs POSTS_FILE \<noteq> None"
    and "p \<noteq> ARCHIVE_DIR (archive_file_name env fs) \<Longrightarrow> map_of fs' p = map_of fs p"
  using assms
  by (auto simp: archive_current_posts_cases update_conv'
           split: option.splits move_fault.splits)

lemma archive_current_posts_done:
  assumes "archive_current_posts env fs = (True, fs')"
  shows "map_of fs' POSTS_FILE = None"
    and "map_of fs' POSTS_NEW_FILE = map_of fs POSTS_NEW_FILE"
    and "map_of fs POSTS_FILE \<noteq> None \<Longrightarrow>
           map_of fs' (ARCHIVE_DIR (archive_file_name env fs)) = map_of fs POSTS_FILE"
  using assms
  by (auto simp: archive_current_posts_cases update_conv' delete_conv'
           split: option.splits move_fault.splits)

lemma exists_file_archive_save:
  "save_posts fault ps POSTS_NEW_FILE fs = (ok, fs1) \<Longrightarrow>
   exists_file fs1 (ARCHIVE_DIR n) = exists_file fs (ARCHIVE_DIR n)"
  by (simp add: exists_file_def map_of_save_posts)

lemma archive_file_name_save:
  "save_posts fault ps POSTS_NEW_FILE fs = (ok, fs1) \<Longrightarrow>
   archive_file_name env fs1 = archive_file_name env fs"
  by (simp add: archive_file_name_cases exists_file_archive_save)

text \<open>A move of the staged file that raises leaves the current file as the fault says.\<close>

lemma commit_move_raised:
  assumes "shutil_move fault POSTS_NEW_FILE POSTS_FILE fs2 = (Some e, fs3)"
    and "map_of fs2 POSTS_NEW_FILE = Some c" "map_of fs2 POSTS_FILE = None"
  shows "map_of fs3 POSTS_FILE =
           (case fault of
              Move_ok \<Rightarrow> None
            | Raise_unchanged \<Rightarrow> None
            | Raise_partial n \<Rightarrow> Some (truncate_content n c)
            | Raise_copied \<Rightarrow> Some c)"
    and "p \<noteq> POSTS_FILE \<Longrightarrow> map_of fs3 p = map_of fs2 p"
  using assms
  by (auto simp: shutil_move_def update_conv' split: move_fault.splits)

text \<open>The two formats, digit by digit.\<close>

lemma str_nat_small: "n < 10 \<Longrightarrow> str_nat n = [digit n]"
  by (simp add: str_nat.simps [of n] digit_def)

lemma str_nat_step: "10 \<le> n \<Longrightarrow> str_nat n = str_nat (n div 10) @ [digit (n mod 10)]"
  by (simp add: str_nat.simps [of n] digit_def)

lemma two_digits_format:
  assumes "n < 100"
  shows "two_digits n = [digit (n div 10), digit (n mod 10)]"
proof (cases "n < 10")
  case True
  then show ?thesis by (simp add: two_digits_def str_nat_small digit_def)
next
  case False
  with assms have "n div 10 < 10" by simp
  with False show ?thesis by (simp add: two_digits_def str_nat_step str_nat_small)
qed

lemma four_digits_format:
  assumes "1000 \<le> n" "n \<le> 9999"
  shows "str_nat n = [digit (n div 1000), digit (n div 100 mod 10),
                      digit (n div 10 mod 10), digit (n mod 10)]"
proof -
  have d: "n div 10 div 10 = n div 100" "n div 100 div 10 = n div 1000"
    by (simp_all add: div_mult2_eq [symmetric])
  have s1: "str_nat n = str_nat (n div 10) @ [digit (n mod 10)]"
    using assms by (intro str_nat_step) simp
  have s2: "str_nat (n div 10) = str_nat (n div 100) @ [digit (n div 10 mod 10)]"
    using assms str_nat_step [of "n div 10"] unfolding d by simp
  have s3: "str_nat (n div 100) = str_nat (n div 1000) @ [digit (n div 100 mod 10)]"
    using assms str_nat_step [of "n div 100"] unfolding d by simp
  have s4: "str_nat (n div 1000) = [digit (n div 1000)]"
    using assms by (intro str_nat_small) simp
  show ?thesis unfolding s1 s2 s3 s4 by simp
qed

lemma strftime_Ymd_format:
  assumes "valid_clock t"
  shows "strftime_Ymd t =
           [digit (year t div 1000), digit (year t div 100 mod 10),
            digit (year t div 10 mod 10), digit (year t mod 10),
            digit (month t div 10), digit (month t mod 10),
            digit (day t div 10), digit (day t mod 10)]"
  using assms
  by (simp add: strftime_Ymd_def valid_clock_def four_digits_format two_digits_format)

lemma strftime_Ymd_HM_format:
  assumes "valid_clock t"
  shows "strftime_Ymd_HM t =
           strftime_Ymd t @
           [CHR ''_'', digit (hh t div 10), digit (hh t mod 10),
            digit (mm t div 10), digit (mm t mod 10)]"
  using assms
  by (simp add: strftime_Ymd_HM_def valid_clock_def two_digits_format)

lemma stamps_new_year:
  "strftime_Ymd new_year_3am = ''20250101''"
  "strftime_Ymd_HM new_year_3am = ''20250101_0300''"
  by (simp_all add: strftime_Ymd_HM_def strftime_Ymd_def two_digits_def new_year_3am_def
        str_nat.simps)

text \<open>
  Claim C3.  For every call of \<^verbatim>\<open>update_posts\<close> in which the staging step fails
  (\<^verbatim>\<open>save_posts\<close> on the temporary file returns \<^verbatim>\<open>False\<close>), the call returns \<^verbatim>\<open>False\<close>,
  and every file other than the temporary one is after the call what it was before:
  the current posts file (present or absent, and byte for byte) and every file of
  the archive.
\<close>

theorem update_posts_staging_failure:
  assumes "fst (save_posts (save_fault env) new_posts POSTS_NEW_FILE fs) = False"
  shows "fst (update_posts env new_posts fs) = False
       \<and> map_of (snd (update_posts env new_posts fs)) POSTS_FILE = map_of fs POSTS_FILE
       \<and> (\<forall>n. map_of (snd (update_posts env new_posts fs)) (ARCHIVE_DIR n)
               = map_of fs (ARCHIVE_DIR n))"
proof -
  obtain fs1 where s: "save_posts (save_fault env) new_posts POSTS_NEW_FILE fs = (False, fs1)"
    using assms by (cases "save_posts (save_fault env) new_posts POSTS_NEW_FILE fs") auto
  then have u: "update_posts env new_posts fs = (False, fs1)"
    by (simp add: update_posts_def)
  from s have "map_of fs1 p = map_of fs p" if "p \<noteq> POSTS_NEW_FILE" for p
    using that by (rule map_of_save_posts)
  then show ?thesis by (simp add: u)
qed

theorem update_posts_staging_failure_witness:
  "fst (save_posts (save_fault dump_breaks) [news_post] POSTS_NEW_FILE (files published_old)) = False
   \<and> fst (update_posts dump_breaks [news_post] (files published_old)) = False
   \<and> map_of (snd (update_posts dump_breaks [news_post] (files published_old))) POSTS_FILE
       = Some (Json [old_post])"
proof -
  have h: "fst (save_posts (save_fault dump_breaks) [news_post] POSTS_NEW_FILE (files published_old)) = False"
    by (simp add: save_posts_def dump_breaks_def no_faults_def)
  have "map_of (files published_old) POSTS_FILE = Some (Json [old_post])"
    by (simp add: published_old_def)
  with h update_posts_staging_failure [OF h] show ?thesis by simp
qed

text \<open>
  Claim C4, as the code has it.  Take a call of \<^verbatim>\<open>update_posts\<close> whose staging step
  succeeded.  If the archiving step fails, the call returns \<^verbatim>\<open>False\<close> and the current
  posts file still holds, byte for byte, the previous dataset.  If the archiving
  step succeeds and the committing move raises, the call returns \<^verbatim>\<open>False\<close>; the
  previous dataset is no longer in the current posts file (if there was one, it is
  in the archive under the name chosen for it); the current posts file is absent,
  or holds the first bytes of the new dataset, or holds the full new dataset,
  according to how far the move got before it raised; and the temporary staged file
  is removed unless the \<^verbatim>\<open>unlink\<close> itself fails.
\<close>

theorem update_posts_late_failure:
  assumes "save_posts (save_fault env) new_posts POSTS_NEW_FILE fs = (True, fs1)"
  shows "(fst (archive_current_posts env fs1) = False \<longrightarrow>
            fst (update_posts env new_posts fs) = False
          \<and> map_of fs POSTS_FILE \<noteq> None
          \<and> map_of (snd (update_posts env new_posts fs)) POSTS_FILE = map_of fs POSTS_FILE)
       \<and> (\<forall>fs2 e fs3.
            archive_current_posts env fs1 = (True, fs2) \<and>
            shutil_move (commit_move env) POSTS_NEW_FILE POSTS_FILE fs2 = (Some e, fs3) \<longrightarrow>
              fst (update_posts env new_posts fs) = False
            \<and> commit_move env \<noteq> Move_ok
            \<and> map_of (snd (update_posts env new_posts fs)) POSTS_FILE =
                 (case commit_move env of
                    Move_ok \<Rightarrow> None
                  | Raise_unchanged \<Rightarrow> None
                  | Raise_partial n \<Rightarrow> Some (Partial new_posts n)
                  | Raise_copied \<Rightarrow> Some (Json new_posts))
            \<and> (map_of fs POSTS_FILE \<noteq> None \<longrightarrow>
                 map_of (snd (update_posts env new_posts fs))
                   (ARCHIVE_DIR (archive_file_name env fs)) = map_of fs POSTS_FILE)
            \<and> (\<not> unlink_fails env \<longrightarrow>
                 map_of (snd (update_posts env new_posts fs)) POSTS_NEW_FILE = None))"
proof (intro conjI impI allI)
  assume a: "fst (archive_current_posts env fs1) = False"
  then obtain fs2 where a2: "archive_current_posts env fs1 = (False, fs2)"
    by (cases "archive_current_posts env fs1") auto
  have u: "update_posts env new_posts fs = (False, fs2)"
    using assms a2 by (simp add: update_posts_def)
  have keep: "map_of fs1 POSTS_FILE = map_of fs POSTS_FILE"
    using assms by (rule map_of_save_posts) simp
  show "fst (update_posts env new_posts fs) = False" by (simp add: u)
  show "map_of fs POSTS_FILE \<noteq> None"
    using archive_current_posts_failed(1) [OF a2] keep by simp
  show "map_of (snd (update_posts env new_posts fs)) POSTS_FILE = map_of fs POSTS_FILE"
    using archive_current_posts_failed(2) [OF a2, of POSTS_FILE] keep by (simp add: u)
next
  fix fs2 e fs3
  assume c: "archive_current_posts env fs1 = (True, fs2) \<and>
             shutil_move (commit_move env) POSTS_NEW_FILE POSTS_FILE fs2 = (Some e, fs3)"
  then have ar: "archive_current_posts env fs1 = (True, fs2)"
    and mv: "shutil_move (commit_move env) POSTS_NEW_FILE POSTS_FILE fs2 = (Some e, fs3)"
    by simp_all
  have u: "update_posts env new_posts fs = (False, cleanup_new_file env fs3)"
    using assms ar mv by (simp add: update_posts_def)
  have keep: "map_of fs1 POSTS_FILE = map_of fs POSTS_FILE"
    using assms by (rule map_of_save_posts) simp
  have staged: "map_of fs2 POSTS_NEW_FILE = Some (Json new_posts)"
    using archive_current_posts_done(2) [OF ar] save_posts_staged [OF assms] by simp
  have gone: "map_of fs2 POSTS_FILE = None"
    using archive_current_posts_done(1) [OF ar] .
  note raised = commit_move_raised [OF mv staged gone]
  have cl: "map_of (cleanup_new_file env fs3) p = map_of fs3 p" if "p \<noteq> POSTS_NEW_FILE" for p
    using that by (simp add: cleanup_new_file_def delete_conv')
  show "fst (update_posts env new_posts fs) = False" by (simp add: u)
  show "commit_move env \<noteq> Move_ok"
    using mv staged by (auto simp: shutil_move_def)
  show "map_of (snd (update_posts env new_posts fs)) POSTS_FILE =
          (case commit_move env of
             Move_ok \<Rightarrow> None
           | Raise_unchanged \<Rightarrow> None
           | Raise_partial n \<Rightarrow> Some (Partial new_posts n)
           | Raise_copied \<Rightarrow> Some (Json new_posts))"
    using raised(1) by (simp add: u cl split: move_fault.splits)
  show "map_of (snd (update_posts env new_posts fs)) (ARCHIVE_DIR (archive_file_name env fs))
        = map_of fs POSTS_FILE" if "map_of fs POSTS_FILE \<noteq> None"
    using that keep archive_current_posts_done(3) [OF ar] raised(2)
      archive_file_name_save [OF assms, of env]
    by (simp add: u cl)
  show "map_of (snd (update_posts env new_posts fs)) POSTS_NEW_FILE = None" if "\<not> unlink_fails env"
    using that by (simp add: u cleanup_new_file_def exists_file_def delete_conv')
qed

theorem update_posts_late_failure_witness:
  "save_posts (save_fault archive_breaks) [news_post] POSTS_NEW_FILE (files published_old)
     = (True, [(POSTS_FILE, Json [old_post]), (POSTS_NEW_FILE, Json [news_post])])
   \<and> fst (archive_current_posts archive_breaks
             [(POSTS_FILE, Json [old_post]), (POSTS_NEW_FILE, Json [news_post])]) = False
   \<and> fst (update_posts archive_breaks [news_post] (files published_old)) = False
   \<and> map_of (snd (update_posts archive_breaks [news_post] (files published_old))) POSTS_FILE
       = Some (Json [old_post])
   \<and> save_posts (save_fault commit_breaks) [news_post] POSTS_NEW_FILE (files published_old)
       = (True, [(POSTS_FILE, Json [old_post]), (POSTS_NEW_FILE, Json [news_post])])
   \<and> archive_current_posts commit_breaks
         [(POSTS_FILE, Json [old_post]), (POSTS_NEW_FILE, Json [news_post])]
       = (True, [(POSTS_NEW_FILE, Json [news_post]),
                 (ARCHIVE_DIR ''posts_20250101.json'', Json [old_post])])
   \<and> shutil_move (commit_move commit_breaks) POSTS_NEW_FILE POSTS_FILE
         [(POSTS_NEW_FILE, Json [news_post]),
          (ARCHIVE_DIR ''posts_20250101.json'', Json [old_post])]
       = (Some (Exception ''OSError''),
          [(POSTS_NEW_FILE, Json [news_post]),
           (ARCHIVE_DIR ''posts_20250101.json'', Json [old_post]),
           (POSTS_FILE, Partial [news_post] 10)])
   \<and> fst (update_posts commit_breaks [news_post] (files published_old)) = False
   \<and> map_of (snd (update_posts commit_breaks [news_post] (files published_old))) POSTS_FILE
       = Some (Partial [news_post] 10)
   \<and> map_of (snd (update_posts commit_breaks [news_post] (files published_old)))
         (ARCHIVE_DIR ''posts_20250101.json'') = Some (Json [old_post])
   \<and> map_of (snd (update_posts commit_breaks [news_post] (files published_old))) POSTS_NEW_FILE
       = None"
proof -
  let ?staged = "[(POSTS_FILE, Json [old_post]), (POSTS_NEW_FILE, Json [news_post])]"
  let ?archived = "[(POSTS_NEW_FILE, Json [news_post]),
                    (ARCHIVE_DIR ''posts_20250101.json'', Json [old_post])]"
  let ?broken = "[(POSTS_NEW_FILE, Json [news_post]),
                  (ARCHIVE_DIR ''posts_20250101.json'', Json [old_post]),
                  (POSTS_FILE, Partial [news_post] 10)]"
  have old: "map_of (files published_old) POSTS_FILE = Some (Json [old_post])"
    by (simp add: published_old_def)
  have s1: "save_posts (save_fault archive_breaks) [news_post] POSTS_NEW_FILE (files published_old)
            = (True, ?staged)"
    by (simp add: save_posts_def archive_breaks_def no_faults_def published_old_def)
  have a1: "fst (archive_current_posts archive_breaks ?staged) = False"
    by (simp add: archive_current_posts_cases archive_breaks_def no_faults_def)
  have s2: "save_posts (save_fault commit_breaks) [news_post] POSTS_NEW_FILE (files published_old)
            = (True, ?staged)"
    by (simp add: save_posts_def commit_breaks_def no_faults_def published_old_def)
  have a2: "archive_current_posts commit_breaks ?staged = (True, ?archived)"
    by (simp add: archive_current_posts_cases archive_file_name_cases exists_file_def
          AList.delete_eq commit_breaks_def no_faults_def stamps_new_year)
  have m2: "shutil_move (commit_move commit_breaks) POSTS_NEW_FILE POSTS_FILE ?archived
            = (Some (Exception ''OSError''), ?broken)"
    by (simp add: shutil_move_def commit_breaks_def no_faults_def)
  have n2: "archive_file_name commit_breaks (files published_old) = ''posts_20250101.json''"
    by (simp add: archive_file_name_cases exists_file_def commit_breaks_def no_faults_def
          published_old_def stamps_new_year)
  have c2: "commit_move commit_breaks = Raise_partial 10" "\<not> unlink_fails commit_breaks"
    by (simp_all add: commit_breaks_def no_faults_def)
  from update_posts_late_failure [OF s1] a1 old
  have first: "fst (update_posts archive_breaks [news_post] (files published_old)) = False
     \<and> map_of (snd (update_posts archive_breaks [news_post] (files published_old))) POSTS_FILE
         = Some (Json [old_post])"
    by simp
  from update_posts_late_failure [OF s2] a2 m2
  have "fst (update_posts commit_breaks [news_post] (files published_old)) = False
     \<and> map_of (snd (update_posts commit_breaks [news_post] (files published_old))) POSTS_FILE =
          (case commit_move commit_breaks of
             Move_ok \<Rightarrow> None
           | Raise_unchanged \<Rightarrow> None
           | Raise_partial n \<Rightarrow> Some (Partial [news_post] n)
           | Raise_copied \<Rightarrow> Some (Json [news_post]))
     \<and> (map_of (files published_old) POSTS_FILE \<noteq> None \<longrightarrow>
          map_of (snd (update_posts commit_breaks [news_post] (files published_old)))
            (ARCHIVE_DIR (archive_file_name commit_breaks (files published_old)))
          = map_of (files published_old) POSTS_FILE)
     \<and> (\<not> unlink_fails commit_breaks \<longrightarrow>
          map_of (snd (update_posts commit_breaks [news_post] (files published_old))) POSTS_NEW_FILE
          = None)"
    by blast
  with old n2 c2
  have second: "fst (update_posts commit_breaks [news_post] (files published_old)) = False
     \<and> map_of (snd (update_posts commit_breaks [news_post] (files published_old))) POSTS_FILE
         = Some (Partial [news_post] 10)
     \<and> map_of (snd (update_posts commit_breaks [news_post] (files published_old)))
          (ARCHIVE_DIR ''posts_20250101.json'') = Some (Json [old_post])
     \<and> map_of (snd (update_posts commit_breaks [news_post] (files published_old))) POSTS_NEW_FILE
         = None"
    by simp
  from s1 a1 first s2 a2 m2 second show ?thesis by blast
qed

text \<open>
  The claim as stated fails where the committing move raises: the previous file has
  been moved to the archive by then, so the current posts file holds neither the
  previous nor the new dataset.  Here the rename raised and nothing was copied, and
  the current posts file is absent.
\<close>

theorem update_posts_late_failure_counterexample:
  "map_of (files published_old) POSTS_FILE = Some (Json [old_post])
   \<and> update_posts commit_fails [news_post] (files published_old)
       = (False, [(ARCHIVE_DIR ''posts_20250101.json'', Json [old_post])])
   \<and> map_of (snd (update_posts commit_fails [news_post] (files published_old))) POSTS_FILE = None"
  by (simp add: update_posts_def save_posts_def archive_current_posts_cases
        archive_file_name_cases shutil_move_def cleanup_new_file_def exists_file_def
        AList.delete_eq commit_fails_def no_faults_def published_old_def stamps_new_year)

text \<open>
  Where the committing move raises after it has copied ten bytes, the current posts
  file is left truncated.
\<close>

lemma update_posts_commit_failure_truncates:
  "update_posts commit_breaks [news_post] (files published_old)
     = (False, [(ARCHIVE_DIR ''posts_20250101.json'', Json [old_post]),
                (POSTS_FILE, Partial [news_post] 10)])"
  by (simp add: update_posts_def save_posts_def archive_current_posts_cases
        archive_file_name_cases shutil_move_def cleanup_new_file_def exists_file_def
        AList.delete_eq commit_breaks_def no_faults_def published_old_def stamps_new_year)

text \<open>
  Where the archiving step fails, \<^verbatim>\<open>update_posts\<close> returns at line 93, before the
  handler that removes the temporary file, and the staged file stays.
\<close>

lemma update_posts_archive_failure_keeps_staged_file:
  "update_posts archive_fails [news_post] (files published_old)
     = (False, [(POSTS_FILE, Json [old_post]), (POSTS_NEW_FILE, Json [news_post])])"
  by (simp add: update_posts_def save_posts_def archive_current_posts_cases
        archive_fails_def no_faults_def published_old_def)

text \<open>
  Claim C7, as the code has it.  If no current posts file exists, archiving changes
  nothing and reports success.  If one exists and the move goes through, archiving
  reports success, the current file is gone, its content is in the archive
  directory under the chosen name, and no other file has changed.  If one exists
  and the move raises, archiving reports failure, the current file and every file
  other than the one of the chosen name are as before, and the file of the chosen
  name is as before, or holds the first bytes of the current file, or holds all of
  it, according to how far the move got.  The chosen name is \<^verbatim>\<open>posts_YYYYMMDD.json\<close>
  for the day of the first clock reading, or, if a file of that name exists
  already, \<^verbatim>\<open>posts_YYYYMMDD_HHMM.json\<close> for the second clock reading; the second
  name is not tested.  As long as no file of the second name exists, the chosen
  name is that of no existing archive file, so nothing is overwritten.
\<close>

theorem archive_current_posts_moves:
  "(\<not> exists_file fs POSTS_FILE \<longrightarrow> archive_current_posts env fs = (True, fs))
   \<and> (exists_file fs POSTS_FILE \<and> archive_move env = Move_ok \<longrightarrow>
        fst (archive_current_posts env fs) = True
      \<and> map_of (snd (archive_current_posts env fs)) POSTS_FILE = None
      \<and> map_of (snd (archive_current_posts env fs)) (ARCHIVE_DIR (archive_file_name env fs))
          = map_of fs POSTS_FILE
      \<and> (\<forall>p. p \<noteq> POSTS_FILE \<and> p \<noteq> ARCHIVE_DIR (archive_file_name env fs) \<longrightarrow>
               map_of (snd (archive_current_posts env fs)) p = map_of fs p))
   \<and> (exists_file fs POSTS_FILE \<and> archive_move env \<noteq> Move_ok \<longrightarrow>
        fst (archive_current_posts env fs) = False
      \<and> map_of (snd (archive_current_posts env fs)) POSTS_FILE = map_of fs POSTS_FILE
      \<and> (\<forall>p. p \<noteq> ARCHIVE_DIR (archive_file_name env fs) \<longrightarrow>
               map_of (snd (archive_current_posts env fs)) p = map_of fs p)
      \<and> map_of (snd (archive_current_posts env fs)) (ARCHIVE_DIR (archive_file_name env fs))
          = (case archive_move env of
               Move_ok \<Rightarrow> map_of fs POSTS_FILE
             | Raise_unchanged \<Rightarrow> map_of fs (ARCHIVE_DIR (archive_file_name env fs))
             | Raise_partial n \<Rightarrow> map_option (truncate_content n) (map_of fs POSTS_FILE)
             | Raise_copied \<Rightarrow> map_of fs POSTS_FILE))
   \<and> archive_file_name env fs =
        (if exists_file fs (ARCHIVE_DIR (''posts_'' @ strftime_Ymd (now_day env) @ ''.json''))
         then ''posts_'' @ strftime_Ymd_HM (now_minute env) @ ''.json''
         else ''posts_'' @ strftime_Ymd (now_day env) @ ''.json'')
   \<and> (valid_clock (now_day env) \<longrightarrow>
        strftime_Ymd (now_day env) =
          [digit (year (now_day env) div 1000), digit (year (now_day env) div 100 mod 10),
           digit (year (now_day env) div 10 mod 10), digit (year (now_day env) mod 10),
           digit (month (now_day env) div 10), digit (month (now_day env) mod 10),
           digit (day (now_day env) div 10), digit (day (now_day env) mod 10)])
   \<and> (valid_clock (now_minute env) \<longrightarrow>
        strftime_Ymd_HM (now_minute env) =
          [digit (year (now_minute env) div 1000), digit (year (now_minute env) div 100 mod 10),
           digit (year (now_minute env) div 10 mod 10), digit (year (now_minute env) mod 10),
           digit (month (now_minute env) div 10), digit (month (now_minute env) mod 10),
           digit (day (now_minute env) div 10), digit (day (now_minute env) mod 10),
           CHR ''_'',
           digit (hh (now_minute env) div 10), digit (hh (now_minute env) mod 10),
           digit (mm (now_minute env) div 10), digit (mm (now_minute env) mod 10)])
   \<and> (\<not> exists_file fs (ARCHIVE_DIR (''posts_'' @ strftime_Ymd_HM (now_minute env) @ ''.json'')) \<longrightarrow>
        \<not> exists_file fs (ARCHIVE_DIR (archive_file_name env fs)))"
proof -
  have none: "\<not> exists_file fs POSTS_FILE \<longrightarrow> archive_current_posts env fs = (True, fs)"
    by (simp add: archive_current_posts_cases exists_file_def split: option.splits)
  have ok: "exists_file fs POSTS_FILE \<and> archive_move env = Move_ok \<longrightarrow>
        fst (archive_current_posts env fs) = True
      \<and> map_of (snd (archive_current_posts env fs)) POSTS_FILE = None
      \<and> map_of (snd (archive_current_posts env fs)) (ARCHIVE_DIR (archive_file_name env fs))
          = map_of fs POSTS_FILE
      \<and> (\<forall>p. p \<noteq> POSTS_FILE \<and> p \<noteq> ARCHIVE_DIR (archive_file_name env fs) \<longrightarrow>
               map_of (snd (archive_current_posts env fs)) p = map_of fs p)"
    by (auto simp: archive_current_posts_cases exists_file_def update_conv' delete_conv')
  have raised: "exists_file fs POSTS_FILE \<and> archive_move env \<noteq> Move_ok \<longrightarrow>
        fst (archive_current_posts env fs) = False
      \<and> map_of (snd (archive_current_posts env fs)) POSTS_FILE = map_of fs POSTS_FILE
      \<and> (\<forall>p. p \<noteq> ARCHIVE_DIR (archive_file_name env fs) \<longrightarrow>
               map_of (snd (archive_current_posts env fs)) p = map_of fs p)
      \<and> map_of (snd (archive_current_posts env fs)) (ARCHIVE_DIR (archive_file_name env fs))
          = (case archive_move env of
               Move_ok \<Rightarrow> map_of fs POSTS_FILE
             | Raise_unchanged \<Rightarrow> map_of fs (ARCHIVE_DIR (archive_file_name env fs))
             | Raise_partial n \<Rightarrow> map_option (truncate_content n) (map_of fs POSTS_FILE)
             | Raise_copied \<Rightarrow> map_of fs POSTS_FILE)"
    by (cases "archive_move env")
       (auto simp: archive_current_posts_cases exists_file_def update_conv')
  have day: "valid_clock (now_day env) \<longrightarrow>
        strftime_Ymd (now_day env) =
          [digit (year (now_day env) div 1000), digit (year (now_day env) div 100 mod 10),
           digit (year (now_day env) div 10 mod 10), digit (year (now_day env) mod 10),
           digit (month (now_day env) div 10), digit (month (now_day env) mod 10),
           digit (day (now_day env) div 10), digit (day (now_day env) mod 10)]"
    by (simp add: strftime_Ymd_format)
  have minute: "valid_clock (now_minute env) \<longrightarrow>
        strftime_Ymd_HM (now_minute env) =
          [digit (year (now_minute env) div 1000), digit (year (now_minute env) div 100 mod 10),
           digit (year (now_minute env) div 10 mod 10), digit (year (now_minute env) mod 10),
           digit (month (now_minute env) div 10), digit (month (now_minute env) mod 10),
           digit (day (now_minute env) div 10), digit (day (now_minute env) mod 10),
           CHR ''_'',
           digit (hh (now_minute env) div 10), digit (hh (now_minute env) mod 10),
           digit (mm (now_minute env) div 10), digit (mm (now_minute env) mod 10)]"
    by (simp add: strftime_Ymd_HM_format strftime_Ymd_format)
  have free: "\<not> exists_file fs (ARCHIVE_DIR (''posts_'' @ strftime_Ymd_HM (now_minute env) @ ''.json'')) \<longrightarrow>
        \<not> exists_file fs (ARCHIVE_DIR (archive_file_name env fs))"
    by (simp add: archive_file_name_cases)
  from none ok raised archive_file_name_cases [of env fs] day minute free
  show ?thesis by blast
qed

theorem archive_current_posts_moves_witness:
  "\<not> exists_file [] POSTS_FILE
   \<and> archive_current_posts no_faults [] = (True, [])
   \<and> exists_file (files published_old) POSTS_FILE \<and> archive_move no_faults = Move_ok
   \<and> archive_file_name no_faults (files published_old) = ''posts_20250101.json''
   \<and> fst (archive_current_posts no_faults (files published_old)) = True
   \<and> map_of (snd (archive_current_posts no_faults (files published_old))) POSTS_FILE = None
   \<and> map_of (snd (archive_current_posts no_faults (files published_old)))
        (ARCHIVE_DIR ''posts_20250101.json'') = Some (Json [old_post])
   \<and> archive_move archive_breaks \<noteq> Move_ok
   \<and> archive_file_name archive_breaks (files published_old) = ''posts_20250101.json''
   \<and> fst (archive_current_posts archive_breaks (files published_old)) = False
   \<and> map_of (snd (archive_current_posts archive_breaks (files published_old))) POSTS_FILE
        = Some (Json [old_post])
   \<and> map_of (snd (archive_current_posts archive_breaks (files published_old)))
        (ARCHIVE_DIR ''posts_20250101.json'') = Some (Partial [old_post] 10)
   \<and> valid_clock (now_day no_faults)
   \<and> strftime_Ymd (now_day no_faults) = ''20250101''
   \<and> valid_clock (now_minute no_faults)
   \<and> strftime_Ymd_HM (now_minute no_faults) = ''20250101_0300''
   \<and> \<not> exists_file (files published_old) (ARCHIVE_DIR ''posts_20250101_0300.json'')
   \<and> \<not> exists_file (files published_old)
          (ARCHIVE_DIR (archive_file_name no_faults (files published_old)))"
proof -
  note ok = archive_current_posts_moves [of "files published_old" no_faults]
  note br = archive_current_posts_moves [of "files published_old" archive_breaks]
  note none = archive_current_posts_moves [of "[]" no_faults, THEN conjunct1]
  note moved = ok [THEN conjunct2, THEN conjunct1]
  note raised = br [THEN conjunct2, THEN conjunct2, THEN conjunct1]
  note name_ok = ok [THEN conjunct2, THEN conjunct2, THEN conjunct2, THEN conjunct1]
  note name_br = br [THEN conjunct2, THEN conjunct2, THEN conjunct2, THEN conjunct1]
  note day_format =
    ok [THEN conjunct2, THEN conjunct2, THEN conjunct2, THEN conjunct2, THEN conjunct1]
  note minute_format =
    ok [THEN conjunct2, THEN conjunct2, THEN conjunct2, THEN conjunct2, THEN conjunct2,
        THEN conjunct1]
  note no_overwrite =
    ok [THEN conjunct2, THEN conjunct2, THEN conjunct2, THEN conjunct2, THEN conjunct2,
        THEN conjunct2]
  have e0: "\<not> exists_file [] POSTS_FILE" by (simp add: exists_file_def)
  have e1: "exists_file (files published_old) POSTS_FILE"
    by (simp add: exists_file_def published_old_def)
  have old: "map_of (files published_old) POSTS_FILE = Some (Json [old_post])"
    by (simp add: published_old_def)
  have f1: "archive_move no_faults = Move_ok" by (simp add: no_faults_def)
  have f2: "archive_move archive_breaks = Raise_partial 10"
    by (simp add: archive_breaks_def no_faults_def)
  have ne: "archive_move archive_breaks \<noteq> Move_ok" by (simp add: f2)
  have v: "valid_clock (now_day no_faults)" "valid_clock (now_minute no_faults)"
    by (simp_all add: valid_clock_def no_faults_def new_year_3am_def)
  have ck: "now_day no_faults = new_year_3am" "now_minute no_faults = new_year_3am"
    "now_day archive_breaks = new_year_3am" "now_minute archive_breaks = new_year_3am"
    by (simp_all add: archive_breaks_def no_faults_def)
  have e2: "\<not> exists_file (files published_old) (ARCHIVE_DIR ''posts_20250101_0300.json'')"
    by (simp add: exists_file_def published_old_def)
  have d: "\<not> exists_file (files published_old) (ARCHIVE_DIR ''posts_20250101.json'')"
    by (simp add: exists_file_def published_old_def)
  have a: "archive_current_posts no_faults [] = (True, [])"
    using none e0 by blast
  have sd: "strftime_Ymd (now_day no_faults) = ''20250101''"
    using day_format [THEN mp, OF v(1)]
    by (simp add: ck new_year_3am_def digit_def)
  have sm: "strftime_Ymd_HM (now_minute no_faults) = ''20250101_0300''"
    using minute_format [THEN mp, OF v(2)]
    by (simp add: ck new_year_3am_def digit_def)
  have n1: "archive_file_name no_faults (files published_old) = ''posts_20250101.json''"
    using name_ok d by (simp add: sd)
  have n2: "archive_file_name archive_breaks (files published_old) = ''posts_20250101.json''"
    using name_br d sd by (simp add: ck)
  have b: "fst (archive_current_posts no_faults (files published_old)) = True
      \<and> map_of (snd (archive_current_posts no_faults (files published_old))) POSTS_FILE = None
      \<and> map_of (snd (archive_current_posts no_faults (files published_old)))
           (ARCHIVE_DIR ''posts_20250101.json'') = Some (Json [old_post])"
    using moved [THEN mp, OF conjI [OF e1 f1]] by (simp add: n1 old)
  have c: "fst (archive_current_posts archive_breaks (files published_old)) = False
      \<and> map_of (snd (archive_current_posts archive_breaks (files published_old))) POSTS_FILE
          = Some (Json [old_post])
      \<and> map_of (snd (archive_current_posts archive_breaks (files published_old)))
           (ARCHIVE_DIR ''posts_20250101.json'') = Some (Partial [old_post] 10)"
    using raised [THEN mp, OF conjI [OF e1 ne]] by (simp add: n2 old f2)
  have free: "\<not> exists_file (files published_old)
                  (ARCHIVE_DIR (archive_file_name no_faults (files published_old)))"
    using no_overwrite e2 by (simp add: sm)
  from e0 a e1 f1 n1 b ne n2 c v sd sm e2 free show ?thesis by blast
qed

text \<open>
  The claim as stated fails when both names are taken: the archive file under the
  refined name, which held the dataset \<open>[old_post]\<close>, is replaced by the current
  file.
\<close>

theorem archive_current_posts_counterexample:
  "map_of crowded_archive (ARCHIVE_DIR ''posts_20250101_0300.json'') = Some (Json [old_post])
   \<and> old_post \<noteq> news_post
   \<and> archive_current_posts no_faults crowded_archive
       = (True, [(ARCHIVE_DIR ''posts_20250101.json'', Json []),
                 (ARCHIVE_DIR ''posts_20250101_0300.json'', Json [news_post])])"
  by (simp add: archive_current_posts_cases archive_file_name_cases exists_file_def
        AList.delete_eq crowded_archive_def no_faults_def stamps_new_year
        old_post_def news_post_def)

section \<open>Properties of the crawl\<close>

text \<open>More fuel does not change the outcome of a pagination loop that has ended.\<close>

lemma crawl_loop_more_fuel:
  "crawl_loop fuel client current_url all_posts = Some ex \<Longrightarrow>
   crawl_loop (fuel + k) client current_url all_posts = Some ex"
proof (induction fuel client current_url all_posts rule: crawl_loop.induct)
  case (1 client current_url all_posts)
  then show ?case by simp
next
  case (2 fuel client all_posts)
  then show ?case by simp
next
  case (3 fuel client u all_posts)
  then show ?case
    by (auto split: sum.splits exn.splits if_splits)
qed

lemma scrape_returned_keeps_state:
  "crawl_loop fuel client (Some ENTRY_URL) [] = Some (Returned ps) \<Longrightarrow>
   scrape_ddm_news fuel client env s = Some s"
  by (simp add: scrape_ddm_news_def)

text \<open>
  Claim C1 does not hold of the code.  On the site \<open>page_2_times_out\<close> the request
  for the second listing page times out; the handler of line 286 leaves the loop
  with \<^verbatim>\<open>break\<close>, and the run goes on to resolve and publish the one entry of the
  first page: the previous dataset \<open>[old_post]\<close> is replaced in \<^verbatim>\<open>latest_posts\<close>
  and in the current posts file, and moved to the archive.
\<close>

theorem scrape_publishes_partial_listing:
  "page_2_times_out ''https://www.ddm.org.tw/xmnews?xsmsid=0K297379120077217595&page=2''
     = Inl (TimeoutException ''timed out'')
   \<and> crawl_loop 3 page_2_times_out (Some ENTRY_URL) [] = Some (Loop_end [news_post])
   \<and> scrape_ddm_news 3 page_2_times_out no_faults published_old
       = Some \<lparr>latest_posts = [news_post\<lparr>content := Some ''Body''\<rparr>],
               files = [(ARCHIVE_DIR ''posts_20250101.json'', Json [old_post]),
                        (POSTS_FILE, Json [news_post\<lparr>content := Some ''Body''\<rparr>])]\<rparr>"
proof -
  have t: "page_2_times_out ''https://www.ddm.org.tw/xmnews?xsmsid=0K297379120077217595&page=2''
           = Inl (TimeoutException ''timed out'')"
    by (simp add: page_2_times_out_def ENTRY_URL_def)
  have e: "page_2_times_out ENTRY_URL = Inr \<lparr>status_code = 200, body = first_page\<rparr>"
    by (simp add: page_2_times_out_def)
  have pp: "page_posts first_page = [news_post]"
    by (simp add: page_posts_def first_page_def form_item_def news_item_def post_of_item_def
          news_post_def List.map_filter_simps)
  have nu: "next_url first_page
            = Some ''https://www.ddm.org.tw/xmnews?xsmsid=0K297379120077217595&page=2''"
    by (simp add: next_url_def first_page_def str_nat.simps)
  have c: "crawl_loop 3 page_2_times_out (Some ENTRY_URL) [] = Some (Loop_end [news_post])"
    by (simp add: eval_nat_numeral e pp nu t)
  have r: "resolve page_2_times_out news_post = news_post\<lparr>content := Some ''Body''\<rparr>"
    by (simp add: resolve_def fetch_post_detail_cases update_post_def news_post_def
          page_2_times_out_def ENTRY_URL_def news_page_def)
  have d: "fetch_details 5 page_2_times_out [news_post]
           = Inr [news_post\<lparr>content := Some ''Body''\<rparr>]"
    by (simp add: fetch_details_eq r)
  have u: "update_posts no_faults [news_post\<lparr>content := Some ''Body''\<rparr>] (files published_old)
           = (True, [(ARCHIVE_DIR ''posts_20250101.json'', Json [old_post]),
                     (POSTS_FILE, Json [news_post\<lparr>content := Some ''Body''\<rparr>])])"
    by (simp add: update_posts_def save_posts_def archive_current_posts_cases
          archive_file_name_cases shutil_move_def exists_file_def AList.delete_eq
          no_faults_def published_old_def stamps_new_year)
  have "scrape_ddm_news 3 page_2_times_out no_faults published_old
        = Some \<lparr>latest_posts = [news_post\<lparr>content := Some ''Body''\<rparr>],
                files = [(ARCHIVE_DIR ''posts_20250101.json'', Json [old_post]),
                         (POSTS_FILE, Json [news_post\<lparr>content := Some ''Body''\<rparr>])]\<rparr>"
    by (simp add: scrape_ddm_news_def c d u)
  with t c show ?thesis by simp
qed

text \<open>
  Claim C10.  For every run of \<^verbatim>\<open>scrape_ddm_news\<close> whose pagination loop ends
  (by the \<^verbatim>\<open>return\<close> of line 200 or at the end of the loop) with no listing entry
  collected, the run ends with the state it started in: no file is written, moved
  or removed, and \<^verbatim>\<open>latest_posts\<close> is what it was.
\<close>

theorem scrape_no_entries_keeps_state:
  assumes "crawl_loop fuel client (Some ENTRY_URL) [] = Some ex"
    and "collected ex = []"
  shows "scrape_ddm_news fuel client env s = Some s"
  using assms by (cases ex) (simp_all add: scrape_ddm_news_def)

theorem scrape_no_entries_keeps_state_witness:
  "crawl_loop 2 no_district_client (Some ENTRY_URL) [] = Some (Loop_end [])
   \<and> collected (Loop_end []) = []
   \<and> scrape_ddm_news 2 no_district_client no_faults published_old = Some published_old"
proof -
  have c: "crawl_loop 2 no_district_client (Some ENTRY_URL) [] = Some (Loop_end [])"
    by (simp add: eval_nat_numeral no_district_client_def empty_page_def page_posts_def
          next_url_def List.map_filter_simps)
  have z: "collected (Loop_end []) = []" by simp
  from scrape_no_entries_keeps_state [OF c z] c z show ?thesis by simp
qed

section \<open>Properties of the daily trigger\<close>

text \<open>
  For a valid \<open>now\<close>, comparing it with today's target field by field is comparing
  the two times of day.
\<close>

lemma time_of_day_order:
  fixes H M h' m' s' u' :: nat
  assumes "M < 60" "m' < 60" "s' < 60" "u' < 1000000"
  shows "(H < h' \<or> (h' = H \<and> M \<le> m'))
         = ((int H * 60 + int M) * 60 * 1000000
              \<le> ((int h' * 60 + int m') * 60 + int s') * 1000000 + int u')"
proof (cases "H < h'")
  case True
  then have "int H + 1 \<le> int h'" by simp
  with assms True show ?thesis by simp
next
  case False
  show ?thesis
  proof (cases "h' = H")
    case True
    show ?thesis
    proof (cases "M \<le> m'")
      case True
      with \<open>h' = H\<close> show ?thesis by simp
    next
      case False
      then have "int m' + 1 \<le> int M" by simp
      with assms \<open>h' = H\<close> False show ?thesis by simp
    qed
  next
    case False
    with \<open>\<not> H < h'\<close> have "int h' + 1 \<le> int H" by simp
    with assms False \<open>\<not> H < h'\<close> show ?thesis by simp
  qed
qed

lemma dt_ge_replace:
  assumes "valid_datetime now" "M < 60"
  shows "dt_ge now (now\<lparr>hour := H, minute := M, second := 0, microsecond := 0\<rparr>)
         = ((int H * 60 + int M) * 60 * 1000000 \<le> microseconds_of_day now)"
proof -
  have "dt_ge now (now\<lparr>hour := H, minute := M, second := 0, microsecond := 0\<rparr>)
        = (H < hour now \<or> (hour now = H \<and> M \<le> minute now))"
    by (auto simp: dt_ge_def)
  also have "\<dots> = ((int H * 60 + int M) * 60 * 1000000 \<le> microseconds_of_day now)"
    unfolding microseconds_of_day_def
    using assms by (intro time_of_day_order) (simp_all add: valid_datetime_def)
  finally show ?thesis .
qed

lemma microseconds_of_day_bounds:
  "valid_datetime t \<Longrightarrow> 0 \<le> microseconds_of_day t \<and> microseconds_of_day t < 86400000000"
  unfolding microseconds_of_day_def valid_datetime_def by simp

text \<open>
  What the computation does give, away from the last day: a next run with the
  target hour and minute and no seconds, on the day of \<open>now\<close> if the wall-clock time
  of \<open>now\<close> is strictly before the target and on the following day otherwise, more
  than zero and at most 24 hours of elapsed time after \<open>now\<close>, and with the UTC
  offset that \<open>now\<close> has, whatever the zone's offset is at that later instant.
\<close>

lemma next_run_wall_clock:
  assumes "valid_datetime now" "ordinal now < MAXORDINAL"
    and "0 \<le> target_hour" "target_hour \<le> 23"
    and "0 \<le> target_minute" "target_minute \<le> 59"
  shows "\<exists>t. next_run now target_hour target_minute = Inr t
           \<and> hour t = nat target_hour \<and> minute t = nat target_minute
           \<and> second t = 0 \<and> microsecond t = 0
           \<and> utcoffset t = utcoffset now
           \<and> (microseconds_of_day now < (target_hour * 60 + target_minute) * 60 * 1000000
                \<longrightarrow> ordinal t = ordinal now)
           \<and> ((target_hour * 60 + target_minute) * 60 * 1000000 \<le> microseconds_of_day now
                \<longrightarrow> ordinal t = ordinal now + 1)
           \<and> 0 < wait_microseconds t now \<and> wait_microseconds t now \<le> 86400000000
           \<and> utc_microseconds t = utc_microseconds now + wait_microseconds t now"
proof -
  let ?H = "nat target_hour" and ?M = "nat target_minute"
  let ?target = "(target_hour * 60 + target_minute) * 60 * 1000000"
  let ?t = "now\<lparr>hour := ?H, minute := ?M, second := 0, microsecond := 0\<rparr>"
  have hm: "int ?H = target_hour" "int ?M = target_minute" "?M < 60"
    using assms by simp_all
  have rep: "replace_time now target_hour target_minute = Inr ?t"
    using assms by (simp add: replace_time_def)
  have ge: "dt_ge now ?t = (?target \<le> microseconds_of_day now)"
    using dt_ge_replace [OF assms(1) hm(3), of ?H] unfolding hm(1,2) .
  have tday: "microseconds_of_day ?t = ?target"
    using assms by (simp add: microseconds_of_day_def)
  have tb: "0 \<le> ?target" "?target < 86400000000"
    using assms by simp_all
  note nb = microseconds_of_day_bounds [OF assms(1)]
  show ?thesis
  proof (cases "?target \<le> microseconds_of_day now")
    case True
    then have nr: "next_run now target_hour target_minute = Inr (?t\<lparr>ordinal := ordinal now + 1\<rparr>)"
      using assms(2) by (simp add: next_run_def rep ge)
    have td: "microseconds_of_day (?t\<lparr>ordinal := ordinal now + 1\<rparr>) = ?target"
      using assms by (simp add: microseconds_of_day_def)
    have w: "wait_microseconds (?t\<lparr>ordinal := ordinal now + 1\<rparr>) now
             = 86400000000 + (?target - microseconds_of_day now)"
      unfolding wait_microseconds_def td by simp
    have i: "utc_microseconds (?t\<lparr>ordinal := ordinal now + 1\<rparr>)
             = utc_microseconds now + (86400000000 + (?target - microseconds_of_day now))"
      unfolding utc_microseconds_def td by simp
    show ?thesis
      using True nb tb by (simp add: nr w i)
  next
    case False
    then have nr: "next_run now target_hour target_minute = Inr ?t"
      by (simp add: next_run_def rep ge)
    have w: "wait_microseconds ?t now = ?target - microseconds_of_day now"
      unfolding wait_microseconds_def tday by simp
    have i: "utc_microseconds ?t = utc_microseconds now + (?target - microseconds_of_day now)"
      unfolding utc_microseconds_def tday by simp
    show ?thesis
      using False nb tb by (simp add: nr w i)
  qed
qed

text \<open>
  On the last day that a \<^verbatim>\<open>datetime\<close> can hold, past the target time, line 346
  raises and no next run is computed.
\<close>

lemma next_run_last_day:
  "next_run last_day 3 0 = Inl (Exception ''date value out of range'')"
  by (simp add: next_run_def replace_time_def dt_ge_def last_day_def MAXORDINAL_def)

text \<open>
  Claim C8 does not hold of the code.  In the zone \<open>pacific\<close>, at 03:05 on 8 March
  2025, with the target 03:00: \<^verbatim>\<open>datetime.now(tz)\<close> has the offset UTC-8, and the next
  run that is computed is 03:00 on 9 March with that same offset, 23 hours and 55
  minutes later.  By then the zone is at UTC-7: the clock of the zone shows 04:00 at
  the instant of the run, and showed 03:00, tomorrow's target time, an hour before,
  22 hours and 55 minutes after \<open>now\<close>.
\<close>

theorem next_run_keeps_stale_offset:
  "now_in pacific eve_of_switch
     = \<lparr>ordinal = 739318, hour = 3, minute = 5, second = 0, microsecond = 0,
        utcoffset = - 28800\<rparr>
   \<and> next_run (now_in pacific eve_of_switch) 3 0
     = Inr \<lparr>ordinal = 739319, hour = 3, minute = 0, second = 0, microsecond = 0,
            utcoffset = - 28800\<rparr>
   \<and> wait_microseconds
        \<lparr>ordinal = 739319, hour = 3, minute = 0, second = 0, microsecond = 0,
         utcoffset = - 28800\<rparr>
        (now_in pacific eve_of_switch) = 86100000000
   \<and> utc_microseconds
        \<lparr>ordinal = 739319, hour = 3, minute = 0, second = 0, microsecond = 0,
         utcoffset = - 28800\<rparr> = eve_of_switch + 86100000000
   \<and> now_in pacific (eve_of_switch + 86100000000)
     = \<lparr>ordinal = 739319, hour = 4, minute = 0, second = 0, microsecond = 0,
        utcoffset = - 25200\<rparr>
   \<and> now_in pacific (eve_of_switch + 82500000000)
     = \<lparr>ordinal = 739319, hour = 3, minute = 0, second = 0, microsecond = 0,
        utcoffset = - 25200\<rparr>"
proof -
  have n: "now_in pacific eve_of_switch
           = \<lparr>ordinal = 739318, hour = 3, minute = 5, second = 0, microsecond = 0,
              utcoffset = - 28800\<rparr>"
    by (simp add: now_in_def pacific_def eve_of_switch_def Let_def)
  have r: "next_run \<lparr>ordinal = 739318, hour = 3, minute = 5, second = 0, microsecond = 0,
                     utcoffset = - 28800\<rparr> 3 0
           = Inr \<lparr>ordinal = 739319, hour = 3, minute = 0, second = 0, microsecond = 0,
                  utcoffset = - 28800\<rparr>"
    by (simp add: next_run_def replace_time_def dt_ge_def MAXORDINAL_def)
  have w: "wait_microseconds
             \<lparr>ordinal = 739319, hour = 3, minute = 0, second = 0, microsecond = 0,
              utcoffset = - 28800\<rparr>
             \<lparr>ordinal = 739318, hour = 3, minute = 5, second = 0, microsecond = 0,
              utcoffset = - 28800\<rparr> = 86100000000"
    by (simp add: wait_microseconds_def microseconds_of_day_def)
  have i: "utc_microseconds
             \<lparr>ordinal = 739319, hour = 3, minute = 0, second = 0, microsecond = 0,
              utcoffset = - 28800\<rparr> = eve_of_switch + 86100000000"
    by (simp add: utc_microseconds_def microseconds_of_day_def eve_of_switch_def)
  have f: "now_in pacific (eve_of_switch + 86100000000)
           = \<lparr>ordinal = 739319, hour = 4, minute = 0, second = 0, microsecond = 0,
              utcoffset = - 25200\<rparr>"
    by (simp add: now_in_def pacific_def eve_of_switch_def Let_def)
  have g: "now_in pacific (eve_of_switch + 82500000000)
           = \<lparr>ordinal = 739319, hour = 3, minute = 0, second = 0, microsecond = 0,
              utcoffset = - 25200\<rparr>"
    by (simp add: now_in_def pacific_def eve_of_switch_def Let_def)
  from n r w i f g show ?thesis by simp
qed

end
